theory Spec2Isabelle
  imports Main "HOL-Library.Word"
begin

section \<open>Social NFT: upload, session record store, gallery and wallet bridge\<close>

text \<open>
  The repository is a two-page browser application. The home page
  (\<^verbatim>\<open>src/app/page.tsx\<close>) uploads an image to a pinning service and appends a record
  to the list kept in \<^verbatim>\<open>sessionStorage\<close> under the key \<^verbatim>\<open>stored_images\<close>. The feed page
  (\<^verbatim>\<open>src/unnamed/part_000\<close>) loads that list, sorts and filters it, and mints a record
  through a wallet provider.

  Conventions of the embedding.
  \<^item> A JavaScript string is the list of its UTF-16 code units, each a 16-bit word
    (\<open>js_string\<close>). A literal of the source is written \<open>str ''...''\<close>; a glyph beyond
    ASCII is written by its code units. \<open>trim\<close>, \<open>includes\<close>, \<open>slice\<close> and
    \<open>toLowerCase\<close> follow ECMAScript on code units and code points; the tables of the
    Unicode Character Database that \<open>toLowerCase\<close> reads are a parameter.
  \<^item> A JavaScript number that holds a clock reading or a status code is an \<^typ>\<open>int\<close> or
    a \<^typ>\<open>nat\<close>; all of them are integers far below \<open>2^53\<close>.
  \<^item> Everything the code awaits from outside (the pinning endpoint, the wallet provider,
    the clock, the build-time environment) is an explicit input, and every request the
    code issues is recorded in a trace that the function returns.
  \<^item> A \<open>throw\<close> is a value: an awaited call yields \<open>Throws e\<close> or \<open>Returns v\<close>, and each
    \<open>catch\<close> of the source is a branch of the model.
\<close>

subsection \<open>Strings\<close>

type_synonym code_unit = "16 word"

type_synonym js_string = "code_unit list"

text \<open>An ASCII literal, character by character, as code units.\<close>

definition str :: "string \<Rightarrow> js_string" where
  "str s = map of_char s"

subsection \<open>Thrown values and awaited results\<close>

text \<open>
  The handlers only ever read \<open>error?.message\<close>, so a thrown value is represented by its
  \<open>message\<close> property (\<open>None\<close> when the value has none).
\<close>

datatype js_error = Error (message: "js_string option")

datatype 'a reply = Throws js_error | Returns 'a

text \<open>\<open>m || d\<close> on an optional string: the empty string is falsy as well.\<close>

definition or_else :: "js_string option \<Rightarrow> js_string \<Rightarrow> js_string" where
  "or_else m d = (case m of None \<Rightarrow> d | Some s \<Rightarrow> if s = [] then d else s)"

subsection \<open>Numbers as text\<close>

text \<open>The digit of a value below sixteen: \<open>0\<close> to \<open>9\<close>, then \<open>a\<close> to \<open>f\<close>.\<close>

definition digit_char :: "nat \<Rightarrow> char" where
  "digit_char d = ''0123456789abcdef'' ! d"

text \<open>
  \<open>n.toString(10)\<close> and \<open>n.toString(16)\<close> for a non-negative integer, as ASCII
  characters; \<open>str\<close> makes the JavaScript string of them.
\<close>

fun dec_digits :: "nat \<Rightarrow> string" where
  "dec_digits n =
     (if n < 10 then [digit_char n] else dec_digits (n div 10) @ [digit_char (n mod 10)])"

fun hex_digits :: "nat \<Rightarrow> string" where
  "hex_digits n =
     (if n < 16 then [digit_char n] else hex_digits (n div 16) @ [digit_char (n mod 16)])"

declare dec_digits.simps [simp del]
declare hex_digits.simps [simp del]

text \<open>The decimal digits of an integer, with a leading minus sign for a negative one.\<close>

definition decimal_text :: "int \<Rightarrow> string" where
  "decimal_text i =
     (if i < 0 then CHR ''-'' # dec_digits (nat (- i)) else dec_digits (nat i))"

text \<open>The template literal \<open>`${n}`\<close> on an integer number.\<close>

definition number_to_string :: "int \<Rightarrow> js_string" where
  "number_to_string i = str (decimal_text i)"

subsection \<open>String operations\<close>

fun startsWith :: "js_string \<Rightarrow> js_string \<Rightarrow> bool" where
  "startsWith s [] = True"
| "startsWith [] (c # t) = False"
| "startsWith (d # s) (c # t) = (d = c \<and> startsWith s t)"

text \<open>\<open>s.includes(t)\<close>: \<open>t\<close> occurs in \<open>s\<close> at some position, searched from the left.\<close>

fun includes_str :: "js_string \<Rightarrow> js_string \<Rightarrow> bool" where
  "includes_str [] t = startsWith [] t"
| "includes_str (d # s) t = (startsWith (d # s) t \<or> includes_str s t)"

text \<open>
  \<open>String.prototype.trim\<close> removes, from both ends, the code units that are white space
  or line terminators of ECMAScript: tab, line feed, vertical tab, form feed, carriage
  return, space, no-break space, U+1680, U+2000 to U+200A, U+2028, U+2029, U+202F,
  U+205F, U+3000 and U+FEFF. All of them are single code units.
\<close>

definition is_space :: "code_unit \<Rightarrow> bool" where
  "is_space u \<longleftrightarrow>
     u = 0x0009 \<or> u = 0x000A \<or> u = 0x000B \<or> u = 0x000C \<or> u = 0x000D \<or> u = 0x0020
     \<or> u = 0x00A0 \<or> u = 0x1680 \<or> (0x2000 \<le> u \<and> u \<le> 0x200A)
     \<or> u = 0x2028 \<or> u = 0x2029 \<or> u = 0x202F \<or> u = 0x205F \<or> u = 0x3000 \<or> u = 0xFEFF"

definition trim :: "js_string \<Rightarrow> js_string" where
  "trim s = rev (dropWhile is_space (rev (dropWhile is_space s)))"

text \<open>\<open>s.slice(0, n)\<close>: the first \<open>n\<close> code units.\<close>

definition slice0 :: "nat \<Rightarrow> js_string \<Rightarrow> js_string" where
  "slice0 n s = take n s"

subsection \<open>Lower case (\<^verbatim>\<open>String.prototype.toLowerCase\<close>)\<close>

text \<open>
  \<open>toLowerCase\<close> reads the string as code points, maps them by the default case
  conversion of the Unicode Standard, and writes the result back as code units. A code
  point is a \<^typ>\<open>nat\<close>.
\<close>

type_synonym code_point = nat

definition is_leading_surrogate :: "code_unit \<Rightarrow> bool" where
  "is_leading_surrogate u = (0xD800 \<le> u \<and> u \<le> 0xDBFF)"

definition is_trailing_surrogate :: "code_unit \<Rightarrow> bool" where
  "is_trailing_surrogate u = (0xDC00 \<le> u \<and> u \<le> 0xDFFF)"

text \<open>
  A leading surrogate followed by a trailing one is one code point; every other code
  unit, a lone surrogate too, is the code point of its own value.
\<close>

fun StringToCodePoints :: "js_string \<Rightarrow> code_point list" where
  "StringToCodePoints [] = []"
| "StringToCodePoints [u] = [unat u]"
| "StringToCodePoints (u # v # s) =
     (if is_leading_surrogate u \<and> is_trailing_surrogate v
      then (0x10000 + (unat u - 0xD800) * 0x400 + (unat v - 0xDC00)) # StringToCodePoints s
      else unat u # StringToCodePoints (v # s))"

definition UTF16EncodeCodePoint :: "code_point \<Rightarrow> js_string" where
  "UTF16EncodeCodePoint cp =
     (if cp \<le> 0xFFFF then [of_nat cp]
      else [of_nat (0xD800 + (cp - 0x10000) div 0x400),
            of_nat (0xDC00 + (cp - 0x10000) mod 0x400)])"

definition CodePointsToString :: "code_point list \<Rightarrow> js_string" where
  "CodePointsToString cps = concat (map UTF16EncodeCodePoint cps)"

text \<open>
  The tables of the Unicode Character Database that the conversion reads are a
  parameter: the lower-case mapping of a code point (the code point itself where the
  database has none, and the two code points \<open>U+0069 U+0307\<close> for \<open>U+0130\<close>, the one
  unconditional entry of \<^verbatim>\<open>SpecialCasing.txt\<close>), and the properties \<open>Cased\<close> and
  \<open>Case_Ignorable\<close>.
\<close>

record unicode_data =
  lowercase_mapping :: "code_point \<Rightarrow> code_point list"
  Cased :: "code_point \<Rightarrow> bool"
  Case_Ignorable :: "code_point \<Rightarrow> bool"

text \<open>
  Going away from a position, the code points met form zero or more case-ignorable ones
  and then a cased one. A code point that is both cased and case-ignorable ends the
  sequence as its cased letter, as the regular expressions of the Unicode Standard read.
\<close>

fun reaches_cased :: "unicode_data \<Rightarrow> code_point list \<Rightarrow> bool" where
  "reaches_cased ucd [] = False"
| "reaches_cased ucd (c # cs) = (Cased ucd c \<or> (Case_Ignorable ucd c \<and> reaches_cased ucd cs))"

text \<open>
  The condition \<open>Final_Sigma\<close>: the capital sigma is preceded by a cased letter and
  case-ignorable code points, and is not followed by case-ignorable code points and a
  cased letter. \<open>before\<close> holds the code points before the sigma, the nearest first.
\<close>

definition Final_Sigma :: "unicode_data \<Rightarrow> code_point list \<Rightarrow> code_point list \<Rightarrow> bool" where
  "Final_Sigma ucd before after = (reaches_cased ucd before \<and> \<not> reaches_cased ucd after)"

text \<open>
  The conversion of a code point list: \<open>U+03A3\<close> in the context \<open>Final_Sigma\<close> becomes
  \<open>U+03C2\<close>, every other code point its lower-case mapping.
\<close>

fun lower_code_points ::
  "unicode_data \<Rightarrow> code_point list \<Rightarrow> code_point list \<Rightarrow> code_point list" where
  "lower_code_points ucd before [] = []"
| "lower_code_points ucd before (c # after) =
     (if c = 0x3A3 \<and> Final_Sigma ucd before after then [0x3C2] else lowercase_mapping ucd c)
     @ lower_code_points ucd (c # before) after"

definition toLowerCase :: "unicode_data \<Rightarrow> js_string \<Rightarrow> js_string" where
  "toLowerCase ucd s = CodePointsToString (lower_code_points ucd [] (StringToCodePoints s))"

subsection \<open>Stored records and session storage\<close>

record StoredImage =
  id :: js_string
  image :: js_string
  description :: js_string
  timestamp :: int

text \<open>
  The string kept under \<^verbatim>\<open>stored_images\<close> is represented by what \<open>JSON.parse\<close> makes
  of it: the empty string (on which the parser throws as well, and which is the one
  falsy string), a non-empty text on which the parser throws a \<open>SyntaxError\<close>
  (carrying the parser's message), or the text \<open>JSON.stringify\<close> writes for an array of
  records. Texts that parse to a value of another shape are not represented; the
  application's only writer, \<open>storeImage\<close>, writes arrays of records.
\<close>

datatype stored_text =
    EmptyText
  | Malformed js_string
  | ImagesJSON "StoredImage list"

text \<open>\<open>sessionStorage.getItem("stored_images")\<close>: \<open>None\<close> is \<open>null\<close>.\<close>

type_synonym session_storage = "stored_text option"

definition JSON_parse :: "stored_text \<Rightarrow> js_error + StoredImage list" where
  "JSON_parse t =
     (case t of
        EmptyText \<Rightarrow> Inl (Error (Some (str ''Unexpected end of JSON input'')))
      | Malformed msg \<Rightarrow> Inl (Error (Some msg))
      | ImagesJSON xs \<Rightarrow> Inr xs)"

definition JSON_stringify :: "StoredImage list \<Rightarrow> stored_text" where
  "JSON_stringify xs = ImagesJSON xs"

definition truthy_text :: "stored_text \<Rightarrow> bool" where
  "truthy_text t = (t \<noteq> EmptyText)"

subsection \<open>The upload adapter (\<^verbatim>\<open>uploadImageToPinata\<close>, \<^verbatim>\<open>src/app/page.tsx\<close>)\<close>

record File =
  file_name :: js_string
  file_bytes :: string

text \<open>
  The JSON body of the pinning endpoint's response, read through \<open>data.IpfsHash\<close> and
  \<open>errorData?.error?.details\<close>; \<open>None\<close> is an absent property. A body on which
  \<open>response.json()\<close> throws, or on which the property access itself throws, is
  \<open>Throws\<close> in \<open>json\<close>: the same \<open>catch\<close> receives both.
\<close>

record response_body =
  IpfsHash :: "js_string option"
  error_details :: "js_string option"

text \<open>\<open>status_code\<close> is \<open>response.status\<close>.\<close>

record response =
  ok :: bool
  status_code :: nat
  json :: "response_body reply"

datatype http_request =
  Fetch (url: js_string) (http_method: js_string) (authorization: js_string) (form_file: File)

text \<open>
  What the upload reads from outside: the build-time variable
  \<open>process.env.NEXT_PUBLIC_PINATA_JWT\<close> (\<open>None\<close> when undefined) and the outcome of
  \<open>fetch\<close>.
\<close>

record upload_env =
  NEXT_PUBLIC_PINATA_JWT :: "js_string option"
  fetch :: "http_request \<Rightarrow> response reply"

text \<open>The body of the \<open>try\<close> block: the requests issued, and the value returned or thrown.\<close>

definition upload_try :: "'a upload_env_scheme \<Rightarrow> File \<Rightarrow> http_request list \<times> (js_error + js_string)" where
  "upload_try env file =
     (case NEXT_PUBLIC_PINATA_JWT env of
        None \<Rightarrow>
          ([], Inl (Error (Some
             (str ''Pinata JWT not configured. Add NEXT_PUBLIC_PINATA_JWT to .env.local''))))
      | Some jwt \<Rightarrow>
          if jwt = [] then
            ([], Inl (Error (Some
               (str ''Pinata JWT not configured. Add NEXT_PUBLIC_PINATA_JWT to .env.local''))))
          else
            let req = Fetch (str ''https://api.pinata.cloud/pinning/pinFileToIPFS'') (str ''POST'')
                        (str ''Bearer '' @ jwt) file
            in (case fetch env req of
                  Throws e \<Rightarrow> ([req], Inl e)
                | Returns response \<Rightarrow>
                    if \<not> ok response then
                      (case json response of
                         Throws e \<Rightarrow> ([req], Inl e)
                       | Returns errorData \<Rightarrow>
                           ([req], Inl (Error (Some
                              (str ''Pinata upload failed ('' @ str (dec_digits (status_code response))
                               @ str ''): '' @ or_else (error_details errorData) (str ''Unknown error''))))))
                    else
                      (case json response of
                         Throws e \<Rightarrow> ([req], Inl e)
                       | Returns data \<Rightarrow>
                           (case IpfsHash data of
                              None \<Rightarrow> ([req], Inl (Error (Some (str ''No IPFS hash returned from Pinata''))))
                            | Some ipfsHash \<Rightarrow>
                                if ipfsHash = [] then
                                  ([req], Inl (Error (Some (str ''No IPFS hash returned from Pinata''))))
                                else ([req], Inr (str ''ipfs://'' @ ipfsHash))))))"

text \<open>The \<open>catch\<close> block rethrows \<open>new Error(error?.message || "Image upload failed")\<close>.\<close>

definition uploadImageToPinata ::
  "'a upload_env_scheme \<Rightarrow> File \<Rightarrow> http_request list \<times> (js_error + js_string)" where
  "uploadImageToPinata env file =
     (case upload_try env file of
        (reqs, Inl error) \<Rightarrow> (reqs, Inl (Error (Some (or_else (message error) (str ''Image upload failed'')))))
      | (reqs, Inr ref) \<Rightarrow> (reqs, Inr ref))"

subsection \<open>The session record store (\<^verbatim>\<open>storeImage\<close>, \<^verbatim>\<open>src/app/page.tsx\<close>)\<close>

text \<open>
  \<open>storeImage\<close> reads the clock twice, once for \<open>id\<close> and once for \<open>timestamp\<close>;
  \<open>Date_now_id\<close> and \<open>Date_now_timestamp\<close> are the two readings, in that order.
  \<open>setItem_throws\<close> is the exception \<open>sessionStorage.setItem\<close> raises on the text it is
  given (a full quota), \<open>None\<close> when it stores the text.
\<close>

record store_env = upload_env +
  Date_now_id :: int
  Date_now_timestamp :: int
  setItem_throws :: "stored_text \<Rightarrow> js_error option"

text \<open>
  The React state of the home page. \<open>description_st\<close> is the state variable
  \<open>description\<close> (the record field of that name belongs to \<open>StoredImage\<close>).
\<close>

record home_state =
  description_st :: js_string
  imageFile :: "File option"
  loading :: bool
  status :: js_string
  uploadingImage :: bool

definition home_init :: home_state where
  "home_init = \<lparr>description_st = [], imageFile = None, loading = False,
                 status = str ''Ready to store images'', uploadingImage = False\<rparr>"

text \<open>The glyph U+2713 that opens the success messages.\<close>

definition check_mark :: js_string where
  "check_mark = [0x2713]"

text \<open>\<open>existingImages ? JSON.parse(existingImages) : []\<close>\<close>

definition read_existing :: "session_storage \<Rightarrow> js_error + StoredImage list" where
  "read_existing existingImages =
     (case existingImages of
        None \<Rightarrow> Inr []
      | Some t \<Rightarrow> if truthy_text t then JSON_parse t else Inr [])"

text \<open>The \<open>catch\<close> and \<open>finally\<close> blocks of \<open>storeImage\<close>.\<close>

definition store_failed :: "home_state \<Rightarrow> js_error \<Rightarrow> home_state" where
  "store_failed st error =
     st\<lparr>loading := False, uploadingImage := False,
        status := str ''Storage failed: '' @ or_else (message error) (str ''Unknown error'')\<rparr>"

text \<open>The object literal \<open>newImage\<close>, with its two readings of \<open>Date.now()\<close>.\<close>

definition new_image :: "'a store_env_scheme \<Rightarrow> js_string \<Rightarrow> js_string \<Rightarrow> StoredImage" where
  "new_image env imageIpfsUrl descr =
     \<lparr>id = number_to_string (Date_now_id env),
      image = imageIpfsUrl,
      description = descr,
      timestamp = Date_now_timestamp env\<rparr>"

text \<open>
  One call of \<open>storeImage\<close>: the requests issued, the state once the call has settled,
  and the session storage it leaves. The redirect to the feed two seconds later is not
  part of the model.
\<close>

definition storeImage ::
  "'a store_env_scheme \<Rightarrow> home_state \<Rightarrow> session_storage \<Rightarrow> http_request list \<times> home_state \<times> session_storage" where
  "storeImage env st storage =
     (case imageFile st of
        None \<Rightarrow> ([], st\<lparr>status := str ''Please select an image and add a description''\<rparr>, storage)
      | Some file \<Rightarrow>
          if trim (description_st st) = [] then
            ([], st\<lparr>status := str ''Please select an image and add a description''\<rparr>, storage)
          else
            (case uploadImageToPinata env file of
               (reqs, Inl error) \<Rightarrow> (reqs, store_failed st error, storage)
             | (reqs, Inr imageIpfsUrl) \<Rightarrow>
                 let newImage = new_image env imageIpfsUrl (description_st st)
                 in (case read_existing storage of
                       Inl error \<Rightarrow> (reqs, store_failed st error, storage)
                     | Inr images \<Rightarrow>
                         let updatedImages = newImage # images;
                             written = JSON_stringify updatedImages
                         in (case setItem_throws env written of
                               Some error \<Rightarrow> (reqs, store_failed st error, storage)
                             | None \<Rightarrow>
                                 (reqs,
                                  st\<lparr>loading := False, uploadingImage := False,
                                     status := check_mark @ str '' Image stored permanently on IPFS!'',
                                     imageFile := None, description_st := []\<rparr>,
                                  Some written)))))"

subsection \<open>The gallery reader (\<^verbatim>\<open>loadImages\<close>, \<^verbatim>\<open>filteredImages\<close>, \<^verbatim>\<open>src/unnamed/part_000\<close>)\<close>

text \<open>
  \<open>Array.prototype.sort\<close> with a comparison function. The sort is stable, so for a
  comparison that orders by a key its result is the stable arrangement, which inserting
  each element before the first one it does not follow computes.
\<close>

fun insert_sorted :: "('a \<Rightarrow> 'a \<Rightarrow> int) \<Rightarrow> 'a \<Rightarrow> 'a list \<Rightarrow> 'a list" where
  "insert_sorted cmp x [] = [x]"
| "insert_sorted cmp x (y # ys) =
     (if cmp x y \<le> 0 then x # y # ys else y # insert_sorted cmp x ys)"

fun array_sort :: "('a \<Rightarrow> 'a \<Rightarrow> int) \<Rightarrow> 'a list \<Rightarrow> 'a list" where
  "array_sort cmp [] = []"
| "array_sort cmp (x # xs) = insert_sorted cmp x (array_sort cmp xs)"

text \<open>\<open>(a, b) => b.timestamp - a.timestamp\<close>\<close>

definition by_timestamp_desc :: "StoredImage \<Rightarrow> StoredImage \<Rightarrow> int" where
  "by_timestamp_desc a b = timestamp b - timestamp a"

subsection \<open>The wallet bridge (\<^verbatim>\<open>mintNFT\<close>, \<^verbatim>\<open>src/unnamed/part_000\<close>)\<close>

definition NFT_CONTRACT_ADDRESS :: js_string where
  "NFT_CONTRACT_ADDRESS = str ''0x54396910e3a670a9C4F75d5314192EA897491C3c''"

record abi_param =
  internalType :: js_string
  param_name :: js_string
  param_type :: js_string

record abi_item =
  inputs :: "abi_param list"
  item_name :: js_string
  outputs :: "abi_param list"
  stateMutability :: js_string
  item_type :: js_string

definition NFT_CONTRACT_ABI :: "abi_item list" where
  "NFT_CONTRACT_ABI =
     [\<lparr>inputs = [\<lparr>internalType = str ''string'', param_name = str ''tokenURI'', param_type = str ''string''\<rparr>],
       item_name = str ''mintNFT'',
       outputs = [],
       stateMutability = str ''nonpayable'',
       item_type = str ''function''\<rparr>]"

text \<open>
  \<open>encodeFunctionData\<close> belongs to the library \<^verbatim>\<open>viem\<close>; the model takes it as a
  parameter: from the ABI, the function name and the arguments to the hex call data.
\<close>

type_synonym encoder = "abi_item list \<Rightarrow> js_string \<Rightarrow> js_string list \<Rightarrow> js_string"

text \<open>\<open>baseSepolia.id\<close>, the chain id that \<^verbatim>\<open>viem/chains\<close> gives for Base Sepolia.\<close>

definition baseSepolia_id :: nat where
  "baseSepolia_id = 84532"

text \<open>One element of \<open>calls\<close>: the properties \<open>to\<close>, \<open>data\<close> and \<open>value\<close>.\<close>

record call =
  call_to :: js_string
  call_data :: js_string
  call_value :: js_string

text \<open>The payload of \<open>wallet_sendCalls\<close>; \<open>from_addr\<close> is its property \<open>from\<close>.\<close>

record sendCalls_payload =
  version :: js_string
  atomicRequired :: bool
  chainId :: js_string
  from_addr :: js_string
  calls :: "call list"

datatype rpc_params = NoParams | SendCalls sendCalls_payload

datatype rpc_request = Request (rpc_method: js_string) (rpc_args: rpc_params)

text \<open>
  The provider handle, by what it answers to the two requests \<open>mintNFT\<close> makes:
  \<open>eth_accounts\<close> (\<open>None\<close> is a null answer) and \<open>wallet_sendCalls\<close>.
\<close>

record provider =
  eth_accounts :: "js_string list option reply"
  wallet_sendCalls :: "sendCalls_payload \<Rightarrow> js_string reply"

text \<open>
  The React state of the feed page. \<open>loading_feed\<close> is its state variable \<open>loading\<close>;
  \<open>mintingImageId = None\<close> is \<open>null\<close>.
\<close>

record feed_state =
  images :: "StoredImage list"
  loading_feed :: bool
  searchTerm :: js_string
  provider :: "provider option"
  connected :: bool
  subAccountAddress :: js_string
  universalAddress :: js_string
  connectLoading :: bool
  mintingImageId :: "js_string option"
  mintStatus :: "js_string \<rightharpoonup> js_string"

definition feed_init :: feed_state where
  "feed_init = \<lparr>images = [], loading_feed = True, searchTerm = [], provider = None,
                 connected = False, subAccountAddress = [], universalAddress = [],
                 connectLoading = False, mintingImageId = None, mintStatus = Map.empty\<rparr>"

text \<open>The effect \<open>loadImages\<close>, run once when the feed page mounts.\<close>

definition loadImages :: "session_storage \<Rightarrow> feed_state \<Rightarrow> feed_state" where
  "loadImages storedImages st =
     (case storedImages of
        None \<Rightarrow> st\<lparr>loading_feed := False\<rparr>
      | Some t \<Rightarrow>
          if truthy_text t then
            (case JSON_parse t of
               Inl error \<Rightarrow> st\<lparr>loading_feed := False\<rparr>
             | Inr parsedImages \<Rightarrow>
                 st\<lparr>images := array_sort by_timestamp_desc parsedImages, loading_feed := False\<rparr>)
          else st\<lparr>loading_feed := False\<rparr>)"

text \<open>The handler of the search box, \<open>setSearchTerm(e.target.value)\<close>.\<close>

definition setSearchTerm :: "js_string \<Rightarrow> feed_state \<Rightarrow> feed_state" where
  "setSearchTerm t st = st\<lparr>searchTerm := t\<rparr>"

definition filteredImages :: "unicode_data \<Rightarrow> feed_state \<Rightarrow> StoredImage list" where
  "filteredImages ucd st =
     filter (\<lambda>image.
        if searchTerm st = [] then True
        else includes_str (toLowerCase ucd (description image))
               (toLowerCase ucd (searchTerm st)))
       (images st)"

text \<open>
  The glyph U+274C that opens a failure message, and U+1F389, a surrogate pair, that
  closes the success.
\<close>

definition cross_mark :: js_string where
  "cross_mark = [0x274C]"

definition party_popper :: js_string where
  "party_popper = [0xD83C, 0xDF89]"

text \<open>The classification in the \<open>catch\<close> block of \<open>mintNFT\<close>.\<close>

definition mint_error_message :: "js_error \<Rightarrow> js_string" where
  "mint_error_message error =
     (case message error of
        None \<Rightarrow> str ''Mint failed''
      | Some m \<Rightarrow>
          if m = [] then str ''Mint failed''
          else if includes_str m (str ''no matching signer'') then
            str ''Sub-account not ready. Please reconnect wallet.''
          else if includes_str m (str ''insufficient'') then str ''Insufficient funds for gas''
          else if includes_str m (str ''rejected'') \<or> includes_str m (str ''denied'') then
            str ''Transaction rejected''
          else slice0 50 m)"

text \<open>The \<open>try\<close> block of \<open>mintNFT\<close>: the requests made, and the calls id or the thrown value.\<close>

definition mint_try ::
  "encoder \<Rightarrow> provider \<Rightarrow> js_string \<Rightarrow> StoredImage \<Rightarrow> rpc_request list \<times> (js_error + js_string)" where
  "mint_try encodeFunctionData p sub img =
     (let list_accounts = Request (str ''eth_accounts'') NoParams
      in case eth_accounts p of
           Throws e \<Rightarrow> ([list_accounts], Inl e)
         | Returns accounts \<Rightarrow>
             if (case accounts of None \<Rightarrow> True | Some [] \<Rightarrow> True | Some (a # _) \<Rightarrow> a \<noteq> sub)
             then ([list_accounts],
                   Inl (Error (Some (str ''Sub-account not properly initialized. Please reconnect.''))))
             else
               let mintData = encodeFunctionData NFT_CONTRACT_ABI (str ''mintNFT'') [image img];
                   payload = \<lparr>version = str ''2.0'',
                              atomicRequired = True,
                              chainId = str ''0x'' @ str (hex_digits baseSepolia_id),
                              from_addr = sub,
                              calls = [\<lparr>call_to = NFT_CONTRACT_ADDRESS,
                                        call_data = mintData,
                                        call_value = str ''0x0''\<rparr>]\<rparr>;
                   send = Request (str ''wallet_sendCalls'') (SendCalls payload)
               in (case wallet_sendCalls p payload of
                     Throws e \<Rightarrow> ([list_accounts, send], Inl e)
                   | Returns callsId \<Rightarrow> ([list_accounts, send], Inr callsId)))"

text \<open>
  One call of \<open>mintNFT\<close>: the provider requests made, and the state once the call has
  settled (before the timer that clears the status eight seconds later).
\<close>

definition mintNFT :: "encoder \<Rightarrow> feed_state \<Rightarrow> StoredImage \<Rightarrow> rpc_request list \<times> feed_state" where
  "mintNFT encodeFunctionData st img =
     (case provider st of
        None \<Rightarrow>
          ([], st\<lparr>mintStatus := (mintStatus st)(id img \<mapsto> str ''Please connect wallet first'')\<rparr>)
      | Some p \<Rightarrow>
          if subAccountAddress st = [] then
            ([], st\<lparr>mintStatus := (mintStatus st)(id img \<mapsto> str ''Please connect wallet first'')\<rparr>)
          else
            (case mint_try encodeFunctionData p (subAccountAddress st) img of
               (reqs, Inr callsId) \<Rightarrow>
                 (reqs,
                  st\<lparr>mintingImageId := None,
                     mintStatus := (mintStatus st)
                       (id img \<mapsto> check_mark @ str '' NFT Minted Successfully! '' @ party_popper)\<rparr>)
             | (reqs, Inl error) \<Rightarrow>
                 (reqs,
                  st\<lparr>mintingImageId := None,
                     mintStatus := (mintStatus st)
                       (id img \<mapsto> cross_mark @ str '' '' @ mint_error_message error)\<rparr>)))"

subsection \<open>Sessions of store operations\<close>

text \<open>
  One use of the home page: the user selects a file (\<open>setImageFile\<close>), types a
  description (\<open>setDescription\<close>) and presses the button bound to \<open>storeImage\<close>. The
  action carries what that call reads from outside.
\<close>

record store_action = store_env +
  chosen_file :: "File option"
  typed_description :: js_string

definition store_step ::
  "store_action \<Rightarrow> home_state \<times> session_storage \<Rightarrow> home_state \<times> session_storage" where
  "store_step a s =
     (case s of (st, storage) \<Rightarrow>
        snd (storeImage a (st\<lparr>imageFile := chosen_file a,
                               description_st := typed_description a\<rparr>) storage))"

fun session ::
  "store_action list \<Rightarrow> home_state \<times> session_storage \<Rightarrow> home_state \<times> session_storage" where
  "session [] s = s"
| "session (a # as) s = session as (store_step a s)"

text \<open>A call of \<open>storeImage\<close> appended its record exactly when it reports success.\<close>

definition stored_ok :: "home_state \<Rightarrow> bool" where
  "stored_ok st = (status st = check_mark @ str '' Image stored permanently on IPFS!'')"

text \<open>Every call of the session is an append.\<close>

fun all_stored :: "store_action list \<Rightarrow> home_state \<times> session_storage \<Rightarrow> bool" where
  "all_stored [] s = True"
| "all_stored (a # as) s = (stored_ok (fst (store_step a s)) \<and> all_stored as (store_step a s))"

text \<open>
  The record an append writes: \<open>newImage\<close>, built from the reference its upload
  returned (the default \<open>[]\<close> is never used for an append, whose upload succeeded).
\<close>

definition uploaded_ref :: "store_action \<Rightarrow> js_string" where
  "uploaded_ref a =
     (case chosen_file a of
        None \<Rightarrow> []
      | Some file \<Rightarrow> (case snd (uploadImageToPinata a file) of Inl e \<Rightarrow> [] | Inr ref \<Rightarrow> ref))"

definition record_of :: "store_action \<Rightarrow> StoredImage" where
  "record_of a = new_image a (uploaded_ref a) (typed_description a)"

text \<open>The session starts with the page as it mounts and nothing under the storage key.\<close>

definition session_start :: "home_state \<times> session_storage" where
  "session_start = (home_init, None)"

subsection \<open>The properties, in the specification's words\<close>

text \<open>
  The list is ordered newest-first by \<open>createdAt\<close>: the \<open>timestamp\<close> of each record is
  greater than or equal to that of every later one.
\<close>

definition newest_first :: "StoredImage list \<Rightarrow> bool" where
  "newest_first xs = sorted_wrt (\<lambda>a b. timestamp a \<ge> timestamp b) xs"

text \<open>
  The lower-cased description contains the lower-cased term as a substring.
\<close>

definition lowercased_contains :: "unicode_data \<Rightarrow> js_string \<Rightarrow> js_string \<Rightarrow> bool" where
  "lowercased_contains ucd descr trm =
     (\<exists>pre post. toLowerCase ucd descr = pre @ toLowerCase ucd trm @ post)"

text \<open>
  Two code units are the same letter up to case: they are equal, or one is a capital
  letter \<open>A\<close> to \<open>Z\<close> and the other the small letter of it.
\<close>

definition same_letter :: "code_unit \<Rightarrow> code_unit \<Rightarrow> bool" where
  "same_letter a b \<longleftrightarrow>
     a = b \<or> (0x41 \<le> a \<and> a \<le> 0x5A \<and> b = a + 0x20)
           \<or> (0x41 \<le> b \<and> b \<le> 0x5A \<and> a = b + 0x20)"

text \<open>
  The description contains the term as a case-insensitive substring: some contiguous
  segment of the description is the term, letter for letter, up to the case of each
  letter.
\<close>

definition contains_ignoring_case :: "js_string \<Rightarrow> js_string \<Rightarrow> bool" where
  "contains_ignoring_case descr trm =
     (\<exists>pre mid post. descr = pre @ mid @ post \<and> list_all2 same_letter mid trm)"

text \<open>The string is ASCII text.\<close>

definition is_ascii :: "js_string \<Rightarrow> bool" where
  "is_ascii s = list_all (\<lambda>u. u < 0x80) s"

text \<open>
  The tables carry the Basic Latin block of the Unicode Character Database: the capital
  letters \<open>A\<close> to \<open>Z\<close> map to their small letters, every other code point below
  \<open>U+0080\<close> to itself.
\<close>

definition basic_latin :: "unicode_data \<Rightarrow> bool" where
  "basic_latin ucd =
     (\<forall>c < 0x80. lowercase_mapping ucd c = [if 0x41 \<le> c \<and> c \<le> 0x5A then c + 0x20 else c])"

text \<open>
  The white space and the line terminators of ECMAScript: tab, vertical tab, form feed,
  the zero width no-break space and the space separators of Unicode; line feed,
  carriage return, line separator and paragraph separator.
\<close>

definition WhiteSpace :: "code_unit set" where
  "WhiteSpace =
     {0x0009, 0x000B, 0x000C, 0xFEFF}
     \<union> {0x0020, 0x00A0, 0x1680, 0x202F, 0x205F, 0x3000} \<union> {0x2000 .. 0x200A}"

definition LineTerminator :: "code_unit set" where
  "LineTerminator = {0x000A, 0x000D, 0x2028, 0x2029}"

text \<open>The description is empty or all whitespace.\<close>

definition blank :: "js_string \<Rightarrow> bool" where
  "blank s = (set s \<subseteq> WhiteSpace \<union> LineTerminator)"

text \<open>The first account the provider lists is the recorded sub-account address.\<close>

definition first_account_is :: "provider \<Rightarrow> js_string \<Rightarrow> bool" where
  "first_account_is p sub =
     (case eth_accounts p of
        Returns (Some (a # _)) \<Rightarrow> a = sub
      | _ \<Rightarrow> False)"

text \<open>The one batched-call request a mint submits.\<close>

definition mint_request :: "encoder \<Rightarrow> js_string \<Rightarrow> StoredImage \<Rightarrow> rpc_request" where
  "mint_request encodeFunctionData sub img =
     Request (str ''wallet_sendCalls'')
       (SendCalls \<lparr>version = str ''2.0'',
                   atomicRequired = True,
                   chainId = str ''0x14a34'',
                   from_addr = sub,
                   calls = [\<lparr>call_to = str ''0x54396910e3a670a9C4F75d5314192EA897491C3c'',
                             call_data = encodeFunctionData NFT_CONTRACT_ABI (str ''mintNFT'') [image img],
                             call_value = str ''0x0''\<rparr>]\<rparr>)"

text \<open>The lower case of an ASCII code unit.\<close>

definition ascii_lower :: "code_unit \<Rightarrow> code_unit" where
  "ascii_lower u = (if 0x41 \<le> u \<and> u \<le> 0x5A then u + 0x20 else u)"

subsection \<open>Concrete inputs\<close>

definition example_file :: File where
  "example_file = \<lparr>file_name = str ''sunset.png'', file_bytes = ''PNG''\<rparr>"

definition example_response :: response where
  "example_response =
     \<lparr>ok = True, status_code = 200,
      json = Returns \<lparr>IpfsHash = Some (str ''QmSunset''), error_details = None\<rparr>\<rparr>"

text \<open>
  A store action whose upload succeeds, with the two clock readings and the description
  left open.
\<close>

definition example_action :: "int \<Rightarrow> int \<Rightarrow> js_string \<Rightarrow> store_action" where
  "example_action t1 t2 descr =
     \<lparr>NEXT_PUBLIC_PINATA_JWT = Some (str ''jwt''),
      fetch = (\<lambda>req. Returns example_response),
      Date_now_id = t1,
      Date_now_timestamp = t2,
      setItem_throws = (\<lambda>t. None),
      chosen_file = Some example_file,
      typed_description = descr\<rparr>"

definition example_unconfigured :: upload_env where
  "example_unconfigured =
     \<lparr>NEXT_PUBLIC_PINATA_JWT = None, fetch = (\<lambda>req. Returns example_response)\<rparr>"

definition example_image :: "js_string \<Rightarrow> js_string \<Rightarrow> int \<Rightarrow> StoredImage" where
  "example_image i d t = \<lparr>id = i, image = str ''ipfs://QmSunset'', description = d, timestamp = t\<rparr>"

definition example_encoder :: encoder where
  "example_encoder abi functionName args = str ''0x'' @ functionName @ concat args"

definition example_provider :: "js_string \<Rightarrow> provider" where
  "example_provider first_account =
     \<lparr>eth_accounts = Returns (Some [first_account, str ''0xMain'']),
      wallet_sendCalls = (\<lambda>payload. Returns (str ''0xCallsId''))\<rparr>"

definition example_feed :: "provider option \<Rightarrow> js_string \<Rightarrow> feed_state" where
  "example_feed p sub = feed_init\<lparr>provider := p, subAccountAddress := sub\<rparr>"

text \<open>
  An excerpt of the Unicode Character Database, exact on Basic Latin and Latin-1
  Supplement (\<open>U+0000\<close> to \<open>U+00FF\<close>), on \<open>U+0130\<close>, on \<open>U+0307\<close>, on the Greek
  letters \<open>U+0391\<close> to \<open>U+03C9\<close> and on the Deseret letters \<open>U+10400\<close> to \<open>U+1044F\<close>;
  outside of these it leaves every code point as it is.
\<close>

definition unicode_excerpt :: unicode_data where
  "unicode_excerpt =
     \<lparr>lowercase_mapping =
        (\<lambda>c. if (0x41 \<le> c \<and> c \<le> 0x5A) \<or> (0xC0 \<le> c \<and> c \<le> 0xDE \<and> c \<noteq> 0xD7)
                  \<or> (0x391 \<le> c \<and> c \<le> 0x3AB \<and> c \<noteq> 0x3A2)
              then [c + 0x20]
              else if c = 0x130 then [0x69, 0x307]
              else if 0x10400 \<le> c \<and> c \<le> 0x10427 then [c + 0x28]
              else [c]),
      Cased =
        (\<lambda>c. (0x41 \<le> c \<and> c \<le> 0x5A) \<or> (0x61 \<le> c \<and> c \<le> 0x7A)
              \<or> c = 0xAA \<or> c = 0xB5 \<or> c = 0xBA
              \<or> (0xC0 \<le> c \<and> c \<le> 0xD6) \<or> (0xD8 \<le> c \<and> c \<le> 0xF6)
              \<or> (0xF8 \<le> c \<and> c \<le> 0xFF) \<or> c = 0x130
              \<or> (0x391 \<le> c \<and> c \<le> 0x3A1) \<or> (0x3A3 \<le> c \<and> c \<le> 0x3C9)
              \<or> (0x10400 \<le> c \<and> c \<le> 0x1044F)),
      Case_Ignorable =
        (\<lambda>c. c \<in> set [0x27, 0x2E, 0x3A, 0x5E, 0x60, 0xA8, 0xAD, 0xAF, 0xB4, 0xB7, 0xB8,
                        0x307])\<rparr>"

text \<open>
  Strings beyond ASCII: \<open>CAFE\<close> and \<open>cafe\<close> with an acute accent on the last letter,
  the Greek capitals alpha and sigma, and the capital sigma alone.
\<close>

definition CAFE_acute :: js_string where
  "CAFE_acute = [0x43, 0x41, 0x46, 0xC9]"

definition cafe_acute :: js_string where
  "cafe_acute = [0x63, 0x61, 0x66, 0xE9]"

definition capital_alpha_sigma :: js_string where
  "capital_alpha_sigma = [0x391, 0x3A3]"

definition capital_sigma :: js_string where
  "capital_sigma = [0x3A3]"

text \<open>
  A description of white space only: space, tab, line feed, no-break space, em space,
  line separator, ideographic space and the zero width no-break space.
\<close>

definition white_description :: js_string where
  "white_description = [0x20, 0x09, 0x0A, 0xA0, 0x2003, 0x2028, 0x3000, 0xFEFF]"

section \<open>Verification\<close>

subsection \<open>Numbers as text are told apart\<close>

lemma of_char_digit_char_all: "\<forall>d\<in>{0..<10}. of_char (digit_char d) = (48 + d :: nat)"
  by code_simp

lemma of_char_digit_char: "d < 10 \<Longrightarrow> (of_char (digit_char d) :: nat) = 48 + d"
  using of_char_digit_char_all by simp

lemma digit_char_inj: "a < 10 \<Longrightarrow> b < 10 \<Longrightarrow> digit_char a = digit_char b \<Longrightarrow> a = b"
proof -
  assume a: "a < 10" and b: "b < 10" and eq: "digit_char a = digit_char b"
  have "48 + a = (of_char (digit_char a) :: nat)"
    using a by (rule of_char_digit_char [symmetric])
  also have "\<dots> = of_char (digit_char b)" by (simp only: eq)
  also have "\<dots> = 48 + b" using b by (rule of_char_digit_char)
  finally show ?thesis by simp
qed

lemma digit_char_not_minus: "d < 10 \<Longrightarrow> digit_char d \<noteq> CHR ''-''"
proof
  assume d: "d < 10" and eq: "digit_char d = CHR ''-''"
  have "(of_char (digit_char d) :: nat) = 45" by (simp only: eq) simp
  with of_char_digit_char [OF d] show False by simp
qed

lemma dec_digits_ne: "dec_digits n \<noteq> []"
  by (subst dec_digits.simps) simp

lemma dec_digits_inj: "dec_digits n = dec_digits m \<Longrightarrow> n = m"
proof (induction n arbitrary: m rule: dec_digits.induct)
  case (1 n)
  show ?case
  proof (cases "n < 10")
    case True
    then have n: "dec_digits n = [digit_char n]" by (subst dec_digits.simps) simp
    show ?thesis
    proof (cases "m < 10")
      case True
      then have "dec_digits m = [digit_char m]" by (subst dec_digits.simps) simp
      with n 1(2) have "digit_char n = digit_char m" by simp
      with \<open>n < 10\<close> \<open>m < 10\<close> show ?thesis by (simp add: digit_char_inj)
    next
      case False
      then have "dec_digits m = dec_digits (m div 10) @ [digit_char (m mod 10)]"
        by (subst dec_digits.simps) simp
      with n 1(2) have "dec_digits (m div 10) = []" by simp
      then show ?thesis by (simp add: dec_digits_ne)
    qed
  next
    case False
    then have n: "dec_digits n = dec_digits (n div 10) @ [digit_char (n mod 10)]"
      by (subst dec_digits.simps) simp
    show ?thesis
    proof (cases "m < 10")
      case True
      then have "dec_digits m = [digit_char m]" by (subst dec_digits.simps) simp
      with n 1(2) have "dec_digits (n div 10) = []" by simp
      then show ?thesis by (simp add: dec_digits_ne)
    next
      case m: False
      then have "dec_digits m = dec_digits (m div 10) @ [digit_char (m mod 10)]"
        by (subst dec_digits.simps) simp
      with n 1(2) have eq: "dec_digits (n div 10) = dec_digits (m div 10)"
        and d: "digit_char (n mod 10) = digit_char (m mod 10)" by simp_all
      from 1(1)[OF False eq] have "n div 10 = m div 10" .
      moreover from d have "n mod 10 = m mod 10" by (intro digit_char_inj) simp_all
      ultimately show ?thesis by (metis div_mult_mod_eq)
    qed
  qed
qed

lemma dec_digits_hd: "hd (dec_digits n) \<noteq> CHR ''-''"
proof (induction n rule: dec_digits.induct)
  case (1 n)
  show ?case
  proof (cases "n < 10")
    case True
    then show ?thesis by (subst dec_digits.simps) (simp add: digit_char_not_minus)
  next
    case False
    with 1 show ?thesis by (subst dec_digits.simps) (simp add: dec_digits_ne)
  qed
qed

lemma decimal_text_inj: "decimal_text i = decimal_text j \<Longrightarrow> i = j"
proof -
  assume eq: "decimal_text i = decimal_text j"
  have neg_pos: "CHR ''-'' # dec_digits a \<noteq> dec_digits b" for a b
    using dec_digits_hd [of b] dec_digits_ne [of b] by (cases "dec_digits b") auto
  show ?thesis
  proof (cases "i < 0")
    case True
    show ?thesis
    proof (cases "j < 0")
      case j: True
      with True eq have "dec_digits (nat (- i)) = dec_digits (nat (- j))"
        by (simp add: decimal_text_def)
      then have "nat (- i) = nat (- j)" by (rule dec_digits_inj)
      with True j show ?thesis by simp
    next
      case False
      with True eq neg_pos show ?thesis by (simp add: decimal_text_def)
    qed
  next
    case False
    show ?thesis
    proof (cases "j < 0")
      case True
      with False eq neg_pos [of "nat (- j)" "nat i"] show ?thesis
        by (simp add: decimal_text_def)
    next
      case j: False
      with False eq have "dec_digits (nat i) = dec_digits (nat j)"
        by (simp add: decimal_text_def)
      then have "nat i = nat j" by (rule dec_digits_inj)
      with False j show ?thesis by simp
    qed
  qed
qed


subsection \<open>Literals as code units\<close>

lemma unat_of_char: "unat (of_char c :: code_unit) = of_char c"
proof -
  have "(of_char c :: nat) mod 256 = of_char c" by (rule of_char_mod_256)
  then have "(of_char c :: nat) < 256" by (metis mod_less_divisor zero_less_numeral)
  then have small: "(of_char c :: nat) < 65536" by linarith
  have "unat (of_nat (of_char c) :: code_unit) = of_char c mod 2 ^ 16"
    by (simp only: unat_of_nat len_of_numeral_defs) simp
  also have "\<dots> = of_char c" using small by simp
  finally show ?thesis by (simp only: of_nat_of_char)
qed

lemma of_char_unit_eq_iff: "(of_char a :: code_unit) = of_char b \<longleftrightarrow> a = b"
proof
  assume "(of_char a :: code_unit) = of_char b"
  then have "unat (of_char a :: code_unit) = unat (of_char b :: code_unit)" by simp
  then have "(of_char a :: nat) = of_char b" by (simp only: unat_of_char)
  then show "a = b" by simp
qed simp

lemma str_eq_iff [simp]: "str a = str b \<longleftrightarrow> a = b"
  unfolding str_def by (simp add: inj_map_eq_map inj_on_def of_char_unit_eq_iff)

lemma str_Nil [simp]: "str [] = []"
  by (simp add: str_def)

lemma str_eq_Nil_iff [simp]: "str s = [] \<longleftrightarrow> s = []"
  by (simp add: str_def)

lemma str_append: "str (a @ b) = str a @ str b"
  by (simp add: str_def)

lemma str_append_str [simp]: "str a @ str b = str (a @ b)" "str a @ str b @ x = str (a @ b) @ x"
  by (simp_all add: str_def)

lemma of_char_unit_less: "(of_char c :: code_unit) < 0x100"
proof -
  have "(of_char c :: nat) mod 256 = of_char c" by (rule of_char_mod_256)
  then have "(of_char c :: nat) < 256" by (metis mod_less_divisor zero_less_numeral)
  then show ?thesis by (simp add: word_less_nat_alt unat_of_char)
qed

lemma str_not_check_mark: "a \<noteq> [] \<Longrightarrow> str a @ x \<noteq> check_mark @ t"
proof (cases a)
  case (Cons c a')
  have "(of_char c :: code_unit) \<noteq> 0x2713"
    using of_char_unit_less [of c] by auto
  with Cons show ?thesis by (simp add: str_def check_mark_def)
qed simp

lemma str_check_mark_simps:
  "a \<noteq> [] \<Longrightarrow> str a @ x = check_mark @ t \<longleftrightarrow> False"
  "a \<noteq> [] \<Longrightarrow> str a = check_mark @ t \<longleftrightarrow> False"
  using str_not_check_mark [of a x t] str_not_check_mark [of a "[]" t] by simp_all

lemma number_to_string_inj: "number_to_string i = number_to_string j \<Longrightarrow> i = j"
  by (simp add: number_to_string_def decimal_text_inj)

subsection \<open>Searching and trimming strings\<close>

lemma startsWith_iff: "startsWith s t \<longleftrightarrow> (\<exists>post. s = t @ post)"
  by (induction s t rule: startsWith.induct) auto

lemma includes_str_iff: "includes_str s t \<longleftrightarrow> (\<exists>pre post. s = pre @ t @ post)"
proof (induction s)
  case Nil
  show ?case by (cases t) auto
next
  case (Cons d s)
  show ?case
  proof
    assume "includes_str (d # s) t"
    then consider "startsWith (d # s) t" | "includes_str s t" by auto
    then show "\<exists>pre post. d # s = pre @ t @ post"
    proof cases
      case 1
      then obtain post where "d # s = t @ post" by (auto simp: startsWith_iff)
      then have "d # s = [] @ t @ post" by simp
      then show ?thesis by blast
    next
      case 2
      with Cons obtain pre post where "s = pre @ t @ post" by auto
      then have "d # s = (d # pre) @ t @ post" by simp
      then show ?thesis by blast
    qed
  next
    assume "\<exists>pre post. d # s = pre @ t @ post"
    then obtain pre post where eq: "d # s = pre @ t @ post" by auto
    show "includes_str (d # s) t"
    proof (cases pre)
      case Nil
      with eq have "startsWith (d # s) t" by (auto simp: startsWith_iff)
      then show ?thesis by simp
    next
      case (Cons e pre')
      with eq have "s = pre' @ t @ post" by simp
      with Cons.IH have "includes_str s t" by blast
      then show ?thesis by simp
    qed
  qed
qed

lemma is_space_iff: "is_space u \<longleftrightarrow> u \<in> WhiteSpace \<union> LineTerminator"
  by (auto simp: is_space_def WhiteSpace_def LineTerminator_def)

lemma blank_iff: "blank s \<longleftrightarrow> (\<forall>u \<in> set s. is_space u)"
  by (auto simp: blank_def is_space_iff)

lemma trim_blank: "trim s = [] \<longleftrightarrow> blank s"
proof
  assume "trim s = []"
  then have all: "\<forall>x\<in>set (dropWhile is_space s). is_space x"
    by (simp add: trim_def dropWhile_eq_Nil_conv)
  have "dropWhile is_space s = []"
  proof (rule ccontr)
    assume ne: "dropWhile is_space s \<noteq> []"
    then have "\<not> is_space (hd (dropWhile is_space s))" by (rule hd_dropWhile)
    moreover from ne have "hd (dropWhile is_space s) \<in> set (dropWhile is_space s)" by simp
    ultimately show False using all by blast
  qed
  then show "blank s" by (simp add: blank_iff dropWhile_eq_Nil_conv)
next
  assume "blank s"
  then have "dropWhile is_space s = []"
    by (simp add: blank_iff dropWhile_eq_Nil_conv)
  then show "trim s = []" by (simp add: trim_def del: dropWhile_eq_Nil_conv)
qed

subsection \<open>The sort of the gallery\<close>

lemma set_insert_sorted: "set (insert_sorted cmp x ys) = insert x (set ys)"
  by (induction ys) auto

lemma length_insert_sorted: "length (insert_sorted cmp x ys) = Suc (length ys)"
  by (induction ys) auto

lemma length_array_sort: "length (array_sort cmp xs) = length xs"
  by (induction xs) (auto simp: length_insert_sorted)

lemma set_array_sort: "set (array_sort cmp xs) = set xs"
  by (induction xs) (auto simp: set_insert_sorted)

lemma newest_first_insert:
  "newest_first ys \<Longrightarrow> newest_first (insert_sorted by_timestamp_desc x ys)"
  unfolding newest_first_def
  by (induction ys) (auto simp: set_insert_sorted by_timestamp_desc_def)

lemma newest_first_array_sort: "newest_first (array_sort by_timestamp_desc xs)"
proof (induction xs)
  case Nil
  show ?case by (simp add: newest_first_def)
next
  case (Cons x xs)
  then show ?case by (simp add: newest_first_insert)
qed

subsection \<open>The gallery filter\<close>

lemma ascii_not_surrogate: "u < 0x80 \<Longrightarrow> \<not> is_leading_surrogate (u :: code_unit)"
  unfolding is_leading_surrogate_def by unat_arith

lemma StringToCodePoints_ascii: "is_ascii s \<Longrightarrow> StringToCodePoints s = map unat s"
  by (induction s rule: StringToCodePoints.induct)
     (simp_all add: is_ascii_def ascii_not_surrogate)

lemma lower_code_points_ascii:
  assumes "basic_latin ucd"
  shows "\<forall>c \<in> set cs. c < 0x80 \<Longrightarrow>
         lower_code_points ucd before cs =
           map (\<lambda>c. if 0x41 \<le> c \<and> c \<le> 0x5A then c + 0x20 else c) cs"
proof (induction cs arbitrary: before)
  case Nil
  show ?case by simp
next
  case (Cons c cs)
  then have c: "c < 0x80" by simp
  with assms have "lowercase_mapping ucd c = [if 0x41 \<le> c \<and> c \<le> 0x5A then c + 0x20 else c]"
    unfolding basic_latin_def by blast
  moreover from c have "c \<noteq> 0x3A3" by simp
  ultimately show ?case using Cons by simp
qed

lemma CodePointsToString_small:
  "\<forall>c \<in> set cs. c \<le> 0xFFFF \<Longrightarrow> CodePointsToString cs = map of_nat cs"
  by (induction cs) (simp_all add: CodePointsToString_def UTF16EncodeCodePoint_def)

lemma ascii_lower_unat:
  "(of_nat (if 0x41 \<le> unat u \<and> unat u \<le> 0x5A then unat u + 0x20 else unat u) :: code_unit)
     = ascii_lower u"
proof -
  have 1: "0x41 \<le> unat u \<longleftrightarrow> 0x41 \<le> u" by (simp add: word_le_nat_alt)
  have 2: "unat u \<le> 0x5A \<longleftrightarrow> u \<le> 0x5A" by (simp add: word_le_nat_alt)
  show ?thesis by (simp add: ascii_lower_def 1 2)
qed

lemma toLowerCase_ascii:
  assumes "basic_latin ucd" and "is_ascii s"
  shows "toLowerCase ucd s = map ascii_lower s"
proof -
  have small: "\<forall>c \<in> set (map unat s). c < 0x80"
    using assms(2) by (auto simp: is_ascii_def list_all_iff word_less_nat_alt)
  let ?f = "\<lambda>c::nat. if 0x41 \<le> c \<and> c \<le> 0x5A then c + 0x20 else c"
  have "\<forall>c \<in> set (map ?f (map unat s)). c \<le> 0xFFFF"
    using small by auto
  then have "toLowerCase ucd s = map of_nat (map ?f (map unat s))"
    by (simp only: toLowerCase_def StringToCodePoints_ascii [OF assms(2)]
        lower_code_points_ascii [OF assms(1) small] CodePointsToString_small)
  also have "\<dots> = map ascii_lower s"
    by (simp add: ascii_lower_unat comp_def)
  finally show ?thesis .
qed

lemma ascii_lower_eq_iff:
  "a < 0x80 \<Longrightarrow> b < 0x80 \<Longrightarrow> ascii_lower a = ascii_lower b \<longleftrightarrow> same_letter a b"
  unfolding ascii_lower_def same_letter_def
  by (auto split: if_splits) unat_arith+

lemma map_eq_iff_list_all2: "map f xs = map f ys \<longleftrightarrow> list_all2 (\<lambda>a b. f a = f b) xs ys"
  by (simp add: list_all2_eq [of "map f xs"] list.rel_map)

lemma same_letter_segment:
  assumes "is_ascii mid" and "is_ascii t"
  shows "map ascii_lower mid = map ascii_lower t \<longleftrightarrow> list_all2 same_letter mid t"
proof -
  have "list_all2 (\<lambda>a b. ascii_lower a = ascii_lower b) mid t \<longleftrightarrow> list_all2 same_letter mid t"
  proof
    assume "list_all2 (\<lambda>a b. ascii_lower a = ascii_lower b) mid t"
    then show "list_all2 same_letter mid t"
      by (rule list.rel_mono_strong)
         (use assms in \<open>simp add: is_ascii_def list_all_iff ascii_lower_eq_iff\<close>)
  next
    assume "list_all2 same_letter mid t"
    then show "list_all2 (\<lambda>a b. ascii_lower a = ascii_lower b) mid t"
      by (rule list.rel_mono_strong)
         (use assms in \<open>simp add: is_ascii_def list_all_iff ascii_lower_eq_iff\<close>)
  qed
  then show ?thesis by (simp only: map_eq_iff_list_all2)
qed

lemma includes_ascii_lower_iff:
  assumes "is_ascii d" and "is_ascii t"
  shows "includes_str (map ascii_lower d) (map ascii_lower t) \<longleftrightarrow> contains_ignoring_case d t"
proof
  assume "includes_str (map ascii_lower d) (map ascii_lower t)"
  then obtain pre post where "map ascii_lower d = pre @ map ascii_lower t @ post"
    by (auto simp: includes_str_iff)
  then have "\<exists>d1 d2. d = d1 @ d2 \<and> pre = map ascii_lower d1
      \<and> map ascii_lower t @ post = map ascii_lower d2"
    by (simp add: map_eq_append_conv)
  then obtain d1 d2 where d: "d = d1 @ d2" and "map ascii_lower t @ post = map ascii_lower d2"
    by blast
  then have "\<exists>mid d3. d2 = mid @ d3 \<and> map ascii_lower t = map ascii_lower mid
      \<and> post = map ascii_lower d3"
    by (simp add: append_eq_map_conv)
  then obtain mid d3 where d2: "d2 = mid @ d3" and eq: "map ascii_lower mid = map ascii_lower t"
    by metis
  from d d2 assms(1) have "is_ascii mid" by (simp add: is_ascii_def)
  with eq assms(2) have "list_all2 same_letter mid t" by (simp add: same_letter_segment)
  with d d2 show "contains_ignoring_case d t"
    unfolding contains_ignoring_case_def by blast
next
  assume "contains_ignoring_case d t"
  then obtain pre mid post where d: "d = pre @ mid @ post" and l: "list_all2 same_letter mid t"
    unfolding contains_ignoring_case_def by blast
  from d assms(1) have "is_ascii mid" by (simp add: is_ascii_def)
  with l assms(2) have "map ascii_lower mid = map ascii_lower t" by (simp add: same_letter_segment)
  with d have "map ascii_lower d = map ascii_lower pre @ map ascii_lower t @ map ascii_lower post"
    by simp
  then show "includes_str (map ascii_lower d) (map ascii_lower t)"
    unfolding includes_str_iff by blast
qed

lemma toLowerCase_Nil: "toLowerCase ucd [] = []"
  by (simp add: toLowerCase_def CodePointsToString_def)

lemma filteredImages_eq:
  "filteredImages ucd st =
     filter (\<lambda>r. lowercased_contains ucd (description r) (searchTerm st)) (images st)"
  unfolding filteredImages_def
  by (rule filter_cong)
     (auto simp: includes_str_iff lowercased_contains_def toLowerCase_Nil)

lemma filteredImages_ascii:
  assumes "basic_latin ucd" and "is_ascii (searchTerm st)"
    and "\<forall>r \<in> set (images st). is_ascii (description r)"
  shows "filteredImages ucd st =
     filter (\<lambda>r. contains_ignoring_case (description r) (searchTerm st)) (images st)"
  unfolding filteredImages_def
proof (rule filter_cong)
  fix r assume r: "r \<in> set (images st)"
  show "(if searchTerm st = [] then True
        else includes_str (toLowerCase ucd (description r)) (toLowerCase ucd (searchTerm st)))
      = contains_ignoring_case (description r) (searchTerm st)"
  proof (cases "searchTerm st = []")
    case True
    have "description r = [] @ [] @ description r" by simp
    then have "contains_ignoring_case (description r) []"
      unfolding contains_ignoring_case_def by (metis list_all2_Nil)
    with True show ?thesis by simp
  next
    case False
    from r assms(3) have "is_ascii (description r)" by blast
    with assms(1,2) False show ?thesis
      by (simp add: toLowerCase_ascii includes_ascii_lower_iff)
  qed
qed simp

text \<open>
  Claim C5, as amended. For every list of records and every search term,
  \<open>filteredImages\<close> returns, in their order, exactly the records whose lower-cased
  description contains the lower-cased term as a substring, both lower-cased by
  \<open>toLowerCase\<close>. For ASCII descriptions and an ASCII term these are exactly the records
  whose description contains the term as a case-insensitive substring. A term that
  exactly one record's lower-cased description contains returns that record alone, a
  term that none contains returns the empty list, and typing a term leaves the loaded
  list \<open>images\<close> as it was; \<open>filteredImages\<close> reads the state and the session storage is
  no argument of it.
\<close>

theorem filteredImages_lowercased:
  "filteredImages ucd (setSearchTerm t st) =
     filter (\<lambda>r. lowercased_contains ucd (description r) t) (images st)
   \<and> (basic_latin ucd \<and> is_ascii t \<and> (\<forall>r \<in> set (images st). is_ascii (description r))
        \<longrightarrow> filteredImages ucd (setSearchTerm t st) =
            filter (\<lambda>r. contains_ignoring_case (description r) t) (images st))
   \<and> (\<forall>r xs ys. images st = xs @ r # ys
         \<and> lowercased_contains ucd (description r) t
         \<and> (\<forall>x \<in> set xs \<union> set ys. \<not> lowercased_contains ucd (description x) t)
        \<longrightarrow> filteredImages ucd (setSearchTerm t st) = [r])
   \<and> ((\<forall>x \<in> set (images st). \<not> lowercased_contains ucd (description x) t)
        \<longrightarrow> filteredImages ucd (setSearchTerm t st) = [])
   \<and> images (setSearchTerm t st) = images st"
proof -
  have eq: "filteredImages ucd (setSearchTerm t st) =
      filter (\<lambda>r. lowercased_contains ucd (description r) t) (images st)"
    by (simp add: filteredImages_eq setSearchTerm_def)
  have ascii: "filteredImages ucd (setSearchTerm t st) =
            filter (\<lambda>r. contains_ignoring_case (description r) t) (images st)"
    if "basic_latin ucd" "is_ascii t" "\<forall>r \<in> set (images st). is_ascii (description r)"
    using filteredImages_ascii [of ucd "setSearchTerm t st"] that
    by (simp add: setSearchTerm_def)
  have one: "filteredImages ucd (setSearchTerm t st) = [r]"
    if "images st = xs @ r # ys" "lowercased_contains ucd (description r) t"
      "\<forall>x \<in> set xs \<union> set ys. \<not> lowercased_contains ucd (description x) t" for r xs ys
    using that by (simp add: eq)
  have none: "filteredImages ucd (setSearchTerm t st) = []"
    if "\<forall>x \<in> set (images st). \<not> lowercased_contains ucd (description x) t"
    using that by (simp add: eq)
  have same: "images (setSearchTerm t st) = images st"
    by (simp add: setSearchTerm_def)
  from eq ascii one none same show ?thesis by blast
qed

lemmas lower_eval =
  toLowerCase_def CodePointsToString_def UTF16EncodeCodePoint_def Final_Sigma_def
  is_leading_surrogate_def is_trailing_surrogate_def unicode_excerpt_def

lemma lower_examples:
  "toLowerCase unicode_excerpt CAFE_acute = cafe_acute"
  "toLowerCase unicode_excerpt cafe_acute = cafe_acute"
  "toLowerCase unicode_excerpt capital_alpha_sigma = [0x3B1, 0x3C2]"
  "toLowerCase unicode_excerpt capital_sigma = [0x3C3]"
  by (simp_all add: lower_eval CAFE_acute_def cafe_acute_def capital_alpha_sigma_def
      capital_sigma_def)

text \<open>
  More of \<open>toLowerCase\<close> on the excerpt: a sigma before a cased letter, a full stop
  between the letters, a space before the sigma, two sigmas, the capital I with dot
  above, whose lower case is two code units, and a Deseret capital, a surrogate pair.
\<close>

lemma lower_more_examples:
  "toLowerCase unicode_excerpt [0x391, 0x3A3, 0x391] = [0x3B1, 0x3C3, 0x3B1]"
  "toLowerCase unicode_excerpt [0x391, 0x2E, 0x3A3] = [0x3B1, 0x2E, 0x3C2]"
  "toLowerCase unicode_excerpt [0x391, 0x2E, 0x3A3, 0x2E, 0x391] = [0x3B1, 0x2E, 0x3C3, 0x2E, 0x3B1]"
  "toLowerCase unicode_excerpt [0x391, 0x20, 0x3A3] = [0x3B1, 0x20, 0x3C3]"
  "toLowerCase unicode_excerpt [0x3A3, 0x3A3] = [0x3C3, 0x3C2]"
  "toLowerCase unicode_excerpt [0x130] = [0x69, 0x307]"
  "toLowerCase unicode_excerpt [0xD801, 0xDC00] = [0xD801, 0xDC28]"
  "toLowerCase unicode_excerpt [0xDC00, 0xD801] = [0xDC00, 0xD801]"
  "toLowerCase unicode_excerpt (str ''Sunset at the BEACH'') = str ''sunset at the beach''"
  by (simp_all add: lower_eval str_def)

text \<open>\<open>trim\<close>, \<open>includes\<close> and \<open>slice\<close> on examples.\<close>

lemma string_examples:
  "trim (white_description @ str ''a b'' @ white_description) = str ''a b''"
  "trim (str ''a b'') = str ''a b''"
  "trim white_description = []"
  "includes_str (str ''user rejected the request'') (str ''rejected'')"
  "\<not> includes_str (str ''rejected'') (str ''user rejected'')"
  "includes_str (str ''abc'') []"
  "slice0 3 (str ''abcde'') = str ''abc''"
  "slice0 3 [0xD83C, 0xDF89, 0x61, 0x62] = [0xD83C, 0xDF89, 0x61]"
  by (simp_all add: trim_def is_space_def white_description_def str_def slice0_def)

text \<open>The classification of the errors of a mint, on examples.\<close>

lemma mint_error_examples:
  "mint_error_message (Error None) = str ''Mint failed''"
  "mint_error_message (Error (Some (str ''no matching signer found''))) =
     str ''Sub-account not ready. Please reconnect wallet.''"
  "mint_error_message (Error (Some (str ''insufficient funds''))) =
     str ''Insufficient funds for gas''"
  "mint_error_message (Error (Some (str ''User denied the request''))) =
     str ''Transaction rejected''"
  "mint_error_message
     (Error (Some (str ''Sub-account not properly initialized. Please reconnect.''))) =
     str ''Sub-account not properly initialized. Please recon''"
  by (simp_all add: mint_error_message_def slice0_def str_def)

text \<open>The ABI holds one function, \<open>mintNFT\<close>, of one argument, a string.\<close>

lemma NFT_CONTRACT_ABI_mintNFT:
  "map item_name NFT_CONTRACT_ABI = [str ''mintNFT'']"
  "map (map param_type \<circ> inputs) NFT_CONTRACT_ABI = [[str ''string'']]"
  by (simp_all add: NFT_CONTRACT_ABI_def)

lemma basic_latin_excerpt: "basic_latin unicode_excerpt"
  by (auto simp: basic_latin_def unicode_excerpt_def)

lemma ascii_examples:
  "is_ascii (str ''Sunset at the BEACH'')" "is_ascii (str ''my cat'')"
  "is_ascii (str ''beach'')" "is_ascii (str ''dog'')"
  by (simp_all add: is_ascii_def str_def)

lemma includes_examples:
  "includes_str (map ascii_lower (str ''Sunset at the BEACH'')) (map ascii_lower (str ''beach''))"
  "\<not> includes_str (map ascii_lower (str ''my cat'')) (map ascii_lower (str ''beach''))"
  "\<not> includes_str (map ascii_lower (str ''my cat'')) (map ascii_lower (str ''dog''))"
  "\<not> includes_str (map ascii_lower (str ''Sunset at the BEACH'')) (map ascii_lower (str ''dog''))"
  "\<not> includes_str [0x3B1, 0x3C2] [0x3C3 :: code_unit]"
  "includes_str cafe_acute cafe_acute"
  "\<not> includes_str (map ascii_lower (str ''my cat'')) cafe_acute"
  by (simp_all add: str_def ascii_lower_def cafe_acute_def)

lemma lowercased_contains_iff:
  "lowercased_contains ucd d t \<longleftrightarrow> includes_str (toLowerCase ucd d) (toLowerCase ucd t)"
  by (simp add: lowercased_contains_def includes_str_iff)

theorem filteredImages_lowercased_witness:
  "basic_latin unicode_excerpt
   \<and> is_ascii (str ''beach'') \<and> is_ascii (str ''my cat'') \<and> is_ascii (str ''Sunset at the BEACH'')
   \<and> filteredImages unicode_excerpt (setSearchTerm (str ''beach'')
        (feed_init\<lparr>images := [example_image (str ''2'') (str ''my cat'') 2,
                               example_image (str ''1'') (str ''Sunset at the BEACH'') 1]\<rparr>))
      = [example_image (str ''1'') (str ''Sunset at the BEACH'') 1]
   \<and> filter (\<lambda>r. contains_ignoring_case (description r) (str ''beach''))
        [example_image (str ''2'') (str ''my cat'') 2,
         example_image (str ''1'') (str ''Sunset at the BEACH'') 1]
      = [example_image (str ''1'') (str ''Sunset at the BEACH'') 1]
   \<and> lowercased_contains unicode_excerpt CAFE_acute cafe_acute
   \<and> \<not> lowercased_contains unicode_excerpt (str ''my cat'') cafe_acute
   \<and> filteredImages unicode_excerpt (setSearchTerm cafe_acute
        (feed_init\<lparr>images := [example_image (str ''2'') (str ''my cat'') 2,
                               example_image (str ''3'') CAFE_acute 3]\<rparr>))
      = [example_image (str ''3'') CAFE_acute 3]
   \<and> filteredImages unicode_excerpt (setSearchTerm (str ''dog'')
        (feed_init\<lparr>images := [example_image (str ''2'') (str ''my cat'') 2,
                               example_image (str ''1'') (str ''Sunset at the BEACH'') 1]\<rparr>))
      = []"
proof -
  let ?A = "example_image (str ''2'') (str ''my cat'') 2"
  let ?B = "example_image (str ''1'') (str ''Sunset at the BEACH'') 1"
  let ?C = "example_image (str ''3'') CAFE_acute 3"
  let ?st = "feed_init\<lparr>images := [?A, ?B]\<rparr>"
  let ?st' = "feed_init\<lparr>images := [?A, ?C]\<rparr>"
  note bl = basic_latin_excerpt
  note low = toLowerCase_ascii [OF bl]
  have descr: "description ?A = str ''my cat''" "description ?B = str ''Sunset at the BEACH''"
    "description ?C = CAFE_acute"
    by (simp_all add: example_image_def)
  have imgs: "images ?st = [?A, ?B]" "images ?st' = [?A, ?C]" by simp_all
  have ascii: "\<forall>r \<in> set (images ?st). is_ascii (description r)"
    by (simp add: descr ascii_examples)
  have beach: "lowercased_contains unicode_excerpt (str ''Sunset at the BEACH'') (str ''beach'')"
    and cat: "\<not> lowercased_contains unicode_excerpt (str ''my cat'') (str ''beach'')"
    and dog: "\<not> lowercased_contains unicode_excerpt (str ''my cat'') (str ''dog'')"
      "\<not> lowercased_contains unicode_excerpt (str ''Sunset at the BEACH'') (str ''dog'')"
    by (simp_all only: lowercased_contains_iff low [OF ascii_examples(1)]
        low [OF ascii_examples(2)] low [OF ascii_examples(3)] low [OF ascii_examples(4)]
        includes_examples not_False_eq_True)
  have cafe: "lowercased_contains unicode_excerpt CAFE_acute cafe_acute"
    and cat': "\<not> lowercased_contains unicode_excerpt (str ''my cat'') cafe_acute"
    by (simp_all only: lowercased_contains_iff low [OF ascii_examples(2)] lower_examples
        includes_examples not_False_eq_True)
  note inst = filteredImages_lowercased [of unicode_excerpt "str ''beach''" ?st]
  from inst have "images ?st = [?A] @ ?B # []
      \<and> lowercased_contains unicode_excerpt (description ?B) (str ''beach'')
      \<and> (\<forall>x \<in> set [?A] \<union> set []. \<not> lowercased_contains unicode_excerpt (description x) (str ''beach''))
      \<longrightarrow> filteredImages unicode_excerpt (setSearchTerm (str ''beach'') ?st) = [?B]"
    by blast
  with beach cat descr have one: "filteredImages unicode_excerpt (setSearchTerm (str ''beach'') ?st) = [?B]"
    by simp
  from inst bl ascii_examples(3) ascii
  have "filteredImages unicode_excerpt (setSearchTerm (str ''beach'') ?st) =
      filter (\<lambda>r. contains_ignoring_case (description r) (str ''beach'')) (images ?st)"
    by blast
  with one have spec: "filter (\<lambda>r. contains_ignoring_case (description r) (str ''beach'')) [?A, ?B]
      = [?B]"
    by (simp only: imgs)
  from filteredImages_lowercased [of unicode_excerpt cafe_acute ?st']
  have "images ?st' = [?A] @ ?C # []
      \<and> lowercased_contains unicode_excerpt (description ?C) cafe_acute
      \<and> (\<forall>x \<in> set [?A] \<union> set []. \<not> lowercased_contains unicode_excerpt (description x) cafe_acute)
      \<longrightarrow> filteredImages unicode_excerpt (setSearchTerm cafe_acute ?st') = [?C]"
    by blast
  with cafe cat' descr have two: "filteredImages unicode_excerpt (setSearchTerm cafe_acute ?st') = [?C]"
    by simp
  from filteredImages_lowercased [of unicode_excerpt "str ''dog''" ?st]
  have "(\<forall>x \<in> set (images ?st). \<not> lowercased_contains unicode_excerpt (description x) (str ''dog''))
      \<longrightarrow> filteredImages unicode_excerpt (setSearchTerm (str ''dog'') ?st) = []"
    by blast
  with dog descr have none: "filteredImages unicode_excerpt (setSearchTerm (str ''dog'') ?st) = []"
    by simp
  from bl ascii_examples(1,2,3) one spec cafe cat' two none show ?thesis by blast
qed

theorem substring_not_found_counterexample:
  "contains_ignoring_case capital_alpha_sigma capital_sigma
   \<and> filteredImages unicode_excerpt (setSearchTerm capital_sigma
        (feed_init\<lparr>images := [example_image (str ''1'') capital_alpha_sigma 1]\<rparr>))
      = []"
proof -
  have "capital_alpha_sigma = [0x391] @ capital_sigma @ []"
    by (simp add: capital_alpha_sigma_def capital_sigma_def)
  moreover have "list_all2 same_letter capital_sigma capital_sigma"
    by (simp add: capital_sigma_def same_letter_def)
  ultimately have c: "contains_ignoring_case capital_alpha_sigma capital_sigma"
    unfolding contains_ignoring_case_def by blast
  have ne: "capital_sigma \<noteq> []" by (simp add: capital_sigma_def)
  have "filteredImages unicode_excerpt (setSearchTerm capital_sigma
        (feed_init\<lparr>images := [example_image (str ''1'') capital_alpha_sigma 1]\<rparr>)) = []"
    by (simp add: filteredImages_def setSearchTerm_def ne example_image_def lower_examples
        includes_examples)
  with c show ?thesis by blast
qed

subsection \<open>The upload adapter\<close>

text \<open>
  Claim C3. When the pinning credential is not configured (the variable is undefined or
  the empty string), \<open>uploadImageToPinata\<close> fails with the configuration-error message
  and has issued no request.
\<close>

theorem upload_without_credential:
  assumes "NEXT_PUBLIC_PINATA_JWT env = None \<or> NEXT_PUBLIC_PINATA_JWT env = Some []"
  shows "uploadImageToPinata env file =
           ([], Inl (Error (Some
              (str ''Pinata JWT not configured. Add NEXT_PUBLIC_PINATA_JWT to .env.local''))))"
  using assms by (auto simp: uploadImageToPinata_def upload_try_def or_else_def)

theorem upload_without_credential_witness:
  "NEXT_PUBLIC_PINATA_JWT example_unconfigured = None
   \<and> uploadImageToPinata example_unconfigured example_file =
       ([], Inl (Error (Some
          (str ''Pinata JWT not configured. Add NEXT_PUBLIC_PINATA_JWT to .env.local''))))"
proof -
  have h: "NEXT_PUBLIC_PINATA_JWT example_unconfigured = None"
    by (simp add: example_unconfigured_def)
  then have "NEXT_PUBLIC_PINATA_JWT example_unconfigured = None
      \<or> NEXT_PUBLIC_PINATA_JWT example_unconfigured = Some []"
    by simp
  from h upload_without_credential [OF this] show ?thesis by simp
qed

text \<open>
  Claim C9. With a configured credential, when the endpoint answers with an OK response
  whose body holds a content hash, the upload returns \<open>ipfs://\<close> followed by that hash,
  after the one request it made.
\<close>

theorem upload_reference:
  assumes "NEXT_PUBLIC_PINATA_JWT env = Some jwt" and "jwt \<noteq> []"
    and "fetch env (Fetch (str ''https://api.pinata.cloud/pinning/pinFileToIPFS'') (str ''POST'')
           (str ''Bearer '' @ jwt) file) = Returns r"
    and "ok r" and "json r = Returns body"
    and "IpfsHash body = Some h" and "h \<noteq> []"
  shows "uploadImageToPinata env file =
           ([Fetch (str ''https://api.pinata.cloud/pinning/pinFileToIPFS'') (str ''POST'')
               (str ''Bearer '' @ jwt) file],
            Inr (str ''ipfs://'' @ h))"
  using assms by (simp add: uploadImageToPinata_def upload_try_def)

lemma upload_success_only_with_hash:
  assumes "snd (uploadImageToPinata env file) = Inr ref"
  shows "\<exists>jwt r body h. NEXT_PUBLIC_PINATA_JWT env = Some jwt \<and> jwt \<noteq> []
           \<and> fetch env (Fetch (str ''https://api.pinata.cloud/pinning/pinFileToIPFS'') (str ''POST'')
                 (str ''Bearer '' @ jwt) file) = Returns r
           \<and> ok r \<and> json r = Returns body \<and> IpfsHash body = Some h \<and> h \<noteq> []
           \<and> ref = str ''ipfs://'' @ h"
  using assms
  by (auto simp: uploadImageToPinata_def upload_try_def Let_def
           split: option.splits if_splits reply.splits prod.splits sum.splits)

theorem upload_reference_witness:
  "NEXT_PUBLIC_PINATA_JWT (example_action 1 2 (str ''sunset'')) = Some (str ''jwt'')
   \<and> ok example_response
   \<and> json example_response = Returns \<lparr>IpfsHash = Some (str ''QmSunset''), error_details = None\<rparr>
   \<and> uploadImageToPinata (example_action 1 2 (str ''sunset'')) example_file =
       ([Fetch (str ''https://api.pinata.cloud/pinning/pinFileToIPFS'') (str ''POST'') (str ''Bearer jwt'')
           example_file],
        Inr (str ''ipfs://QmSunset''))"
proof -
  let ?env = "example_action 1 2 (str ''sunset'')"
  let ?body = "\<lparr>IpfsHash = Some (str ''QmSunset''), error_details = None\<rparr>"
  have 1: "NEXT_PUBLIC_PINATA_JWT ?env = Some (str ''jwt'')" by (simp add: example_action_def)
  have 2: "(str ''jwt'') \<noteq> []" by simp
  have 3: "fetch ?env (Fetch (str ''https://api.pinata.cloud/pinning/pinFileToIPFS'') (str ''POST'')
             (str ''Bearer '' @ str ''jwt'') example_file) = Returns example_response"
    by (simp add: example_action_def)
  have 4: "ok example_response" by (simp add: example_response_def)
  have 5: "json example_response = Returns ?body" by (simp add: example_response_def)
  have 6: "IpfsHash ?body = Some (str ''QmSunset'')" by simp
  have 7: "(str ''QmSunset'') \<noteq> []" by simp
  from upload_reference [OF 1 2 3 4 5 6 7] 1 4 5 show ?thesis by simp
qed

subsection \<open>The guard of the store operation\<close>

text \<open>
  Claim C10. Called with no selected file, or with a description that is empty or all
  whitespace, \<open>storeImage\<close> issues no request and leaves the session storage as it was;
  of the page state only \<open>status\<close> changes, to the message asking for an image and a
  description.
\<close>

theorem storeImage_without_input:
  assumes "imageFile st = None \<or> blank (description_st st)"
  shows "storeImage env st storage =
           ([], st\<lparr>status := str ''Please select an image and add a description''\<rparr>, storage)"
  using assms by (auto simp: storeImage_def trim_blank split: option.splits)

theorem storeImage_without_input_witness:
  "blank white_description
   \<and> storeImage (example_action 1 2 white_description)
        (home_init\<lparr>imageFile := Some example_file, description_st := white_description\<rparr>)
        (Some (ImagesJSON []))
      = ([],
         home_init\<lparr>imageFile := Some example_file, description_st := white_description,
                    status := str ''Please select an image and add a description''\<rparr>,
         Some (ImagesJSON []))
   \<and> storeImage (example_action 1 2 (str ''sunset''))
        (home_init\<lparr>imageFile := None, description_st := str ''sunset''\<rparr>)
        None
      = ([],
         home_init\<lparr>imageFile := None, description_st := str ''sunset'',
                    status := str ''Please select an image and add a description''\<rparr>,
         None)"
proof -
  let ?st = "home_init\<lparr>imageFile := Some example_file, description_st := white_description\<rparr>"
  let ?st' = "home_init\<lparr>imageFile := None, description_st := str ''sunset''\<rparr>"
  have b: "blank white_description"
    by (simp add: blank_def white_description_def WhiteSpace_def LineTerminator_def)
  then have 1: "imageFile ?st = None \<or> blank (description_st ?st)" by simp
  have 2: "imageFile ?st' = None \<or> blank (description_st ?st')" by simp
  have A: "storeImage (example_action 1 2 white_description) ?st (Some (ImagesJSON []))
      = ([], ?st\<lparr>status := str ''Please select an image and add a description''\<rparr>,
         Some (ImagesJSON []))"
    by (rule storeImage_without_input [OF 1])
  have B: "storeImage (example_action 1 2 (str ''sunset'')) ?st' None
      = ([], ?st'\<lparr>status := str ''Please select an image and add a description''\<rparr>, None)"
    by (rule storeImage_without_input [OF 2])
  from b A B show ?thesis by simp
qed

subsection \<open>The wallet bridge\<close>

text \<open>
  Claim C4. A mint attempted before a wallet connection has completed (no provider
  handle, or no recorded sub-account address) makes no provider request; it only sets
  the status of the record to \<open>Please connect wallet first\<close>.
\<close>

theorem mint_before_connect:
  assumes "provider st = None \<or> subAccountAddress st = []"
  shows "mintNFT encodeFunctionData st img =
           ([], st\<lparr>mintStatus := (mintStatus st)(id img \<mapsto> str ''Please connect wallet first'')\<rparr>)"
  using assms by (auto simp: mintNFT_def split: option.splits)

theorem mint_before_connect_witness:
  "subAccountAddress (example_feed (Some (example_provider (str ''0xSub''))) []) = []
   \<and> mintNFT example_encoder (example_feed (Some (example_provider (str ''0xSub''))) [])
        (example_image (str ''1'') (str ''sunset'') 1)
      = ([], example_feed (Some (example_provider (str ''0xSub''))) []
               \<lparr>mintStatus := [(str ''1'') \<mapsto> str ''Please connect wallet first'']\<rparr>)"
proof -
  let ?st = "example_feed (Some (example_provider (str ''0xSub''))) []"
  have s: "subAccountAddress ?st = []" by (simp add: example_feed_def)
  then have "provider ?st = None \<or> subAccountAddress ?st = []" by simp
  from mint_before_connect [OF this, of example_encoder "example_image (str ''1'') (str ''sunset'') 1"] s
  show ?thesis by (simp add: example_feed_def feed_init_def example_image_def)
qed

lemma chainId_hex: "hex_digits baseSepolia_id = ''14a34''"
  by (simp add: hex_digits.simps digit_char_def baseSepolia_id_def)

lemma mint_try_requests:
  "fst (mint_try encodeFunctionData p sub img) =
     (if first_account_is p sub
      then [Request (str ''eth_accounts'') NoParams, mint_request encodeFunctionData sub img]
      else [Request (str ''eth_accounts'') NoParams])"
  by (auto simp: mint_try_def first_account_is_def mint_request_def chainId_hex
        NFT_CONTRACT_ADDRESS_def Let_def
      split: reply.splits option.splits list.splits)

lemma mint_try_fails:
  "\<not> first_account_is p sub \<Longrightarrow> \<exists>e. snd (mint_try encodeFunctionData p sub img) = Inl e"
  by (auto simp: mint_try_def first_account_is_def Let_def
      split: reply.splits option.splits list.splits)

text \<open>
  Claim C2. With a provider handle and a recorded sub-account address, \<open>mintNFT\<close> first
  requests \<open>eth_accounts\<close>. Unless the first listed account is the sub-account address
  it stops there, with a failure status and no call submitted. Otherwise it makes exactly
  one more request, \<open>wallet_sendCalls\<close>, whose payload carries the chain id, the
  sub-account address as sender, \<open>atomicRequired\<close> true and one call: to the NFT contract,
  of value zero, with the encoding of \<open>mintNFT\<close> applied to the record's content reference.
\<close>

theorem mint_connected:
  assumes "provider st = Some p" and "subAccountAddress st \<noteq> []"
  shows "fst (mintNFT encodeFunctionData st img) =
           (if first_account_is p (subAccountAddress st)
            then [Request (str ''eth_accounts'') NoParams,
                  mint_request encodeFunctionData (subAccountAddress st) img]
            else [Request (str ''eth_accounts'') NoParams])
         \<and> (\<not> first_account_is p (subAccountAddress st) \<longrightarrow>
              (\<exists>msg. mintStatus (snd (mintNFT encodeFunctionData st img)) (id img)
                       = Some (cross_mark @ str '' '' @ msg)))"
proof -
  let ?sub = "subAccountAddress st"
  obtain reqs res where t: "mint_try encodeFunctionData p ?sub img = (reqs, res)"
    by (cases "mint_try encodeFunctionData p ?sub img")
  from assms t have m: "fst (mintNFT encodeFunctionData st img) = reqs"
    by (cases res) (simp_all add: mintNFT_def)
  from mint_try_requests [of encodeFunctionData p ?sub img] t m
  have A: "fst (mintNFT encodeFunctionData st img) =
           (if first_account_is p ?sub
            then [Request (str ''eth_accounts'') NoParams, mint_request encodeFunctionData ?sub img]
            else [Request (str ''eth_accounts'') NoParams])"
    by simp
  have B: "\<exists>msg. mintStatus (snd (mintNFT encodeFunctionData st img)) (id img)
                       = Some (cross_mark @ str '' '' @ msg)"
    if "\<not> first_account_is p ?sub"
  proof -
    from mint_try_fails [OF that, of encodeFunctionData img] t
    obtain e where "res = Inl e" by auto
    with assms t show ?thesis by (simp add: mintNFT_def)
  qed
  from A B show ?thesis by blast
qed

theorem mint_connected_witness:
  "provider (example_feed (Some (example_provider (str ''0xSub''))) (str ''0xSub''))
     = Some (example_provider (str ''0xSub''))
   \<and> subAccountAddress (example_feed (Some (example_provider (str ''0xSub''))) (str ''0xSub'')) \<noteq> []
   \<and> first_account_is (example_provider (str ''0xSub'')) (str ''0xSub'')
   \<and> fst (mintNFT example_encoder (example_feed (Some (example_provider (str ''0xSub''))) (str ''0xSub''))
          (example_image (str ''1'') (str ''sunset'') 1))
      = [Request (str ''eth_accounts'') NoParams,
         mint_request example_encoder (str ''0xSub'') (example_image (str ''1'') (str ''sunset'') 1)]
   \<and> \<not> first_account_is (example_provider (str ''0xOther'')) (str ''0xSub'')
   \<and> fst (mintNFT example_encoder (example_feed (Some (example_provider (str ''0xOther''))) (str ''0xSub''))
          (example_image (str ''1'') (str ''sunset'') 1))
      = [Request (str ''eth_accounts'') NoParams]"
proof -
  let ?img = "example_image (str ''1'') (str ''sunset'') 1"
  let ?st = "example_feed (Some (example_provider (str ''0xSub''))) (str ''0xSub'')"
  let ?st' = "example_feed (Some (example_provider (str ''0xOther''))) (str ''0xSub'')"
  have p: "provider ?st = Some (example_provider (str ''0xSub''))"
    and p': "provider ?st' = Some (example_provider (str ''0xOther''))"
    and s: "subAccountAddress ?st = str ''0xSub''" "subAccountAddress ?st' = str ''0xSub''"
    by (simp_all add: example_feed_def)
  have ne: "subAccountAddress ?st \<noteq> []" "subAccountAddress ?st' \<noteq> []"
    by (simp_all add: s)
  have f: "first_account_is (example_provider (str ''0xSub'')) (str ''0xSub'')"
    and f': "\<not> first_account_is (example_provider (str ''0xOther'')) (str ''0xSub'')"
    by (simp_all add: first_account_is_def example_provider_def)
  from mint_connected [OF p ne(1), of example_encoder ?img] f s
  have 1: "fst (mintNFT example_encoder ?st ?img)
      = [Request (str ''eth_accounts'') NoParams, mint_request example_encoder (str ''0xSub'') ?img]"
    by simp
  from mint_connected [OF p' ne(2), of example_encoder ?img] f' s
  have 2: "fst (mintNFT example_encoder ?st' ?img) = [Request (str ''eth_accounts'') NoParams]"
    by simp
  from p ne(1) f 1 f' 2 show ?thesis by blast
qed

subsection \<open>The session record store\<close>

lemma storeImage_stored:
  assumes "storeImage env st storage = (reqs, st', storage')" and "stored_ok st'"
  shows "\<exists>file ref rs. imageFile st = Some file
           \<and> uploadImageToPinata env file = (reqs, Inr ref)
           \<and> read_existing storage = Inr rs
           \<and> storage' = Some (JSON_stringify (new_image env ref (description_st st) # rs))"
  using assms
  by (auto simp: storeImage_def stored_ok_def str_check_mark_simps store_failed_def Let_def
      split: option.splits if_splits prod.splits sum.splits)

lemma storeImage_not_stored:
  assumes "storeImage env st storage = (reqs, st', storage')" and "\<not> stored_ok st'"
  shows "storage' = storage"
  using assms
  by (auto simp: storeImage_def stored_ok_def Let_def
      split: option.splits if_splits prod.splits sum.splits)

lemma read_existing_written: "read_existing (Some (JSON_stringify xs)) = Inr xs"
  by (simp add: read_existing_def JSON_stringify_def truthy_text_def JSON_parse_def)

lemma store_step_stored:
  assumes "stored_ok (fst (store_step a (st, storage)))"
  shows "\<exists>rs. read_existing storage = Inr rs
           \<and> snd (store_step a (st, storage)) = Some (JSON_stringify (record_of a # rs))"
proof -
  let ?st = "st\<lparr>imageFile := chosen_file a, description_st := typed_description a\<rparr>"
  obtain reqs st' storage' where run: "storeImage a ?st storage = (reqs, st', storage')"
    by (cases "storeImage a ?st storage")
  then have step: "store_step a (st, storage) = (st', storage')"
    by (simp add: store_step_def)
  with assms have "stored_ok st'" by simp
  from storeImage_stored [OF run this] obtain chosen ref rs where
    f: "chosen_file a = Some chosen" and u: "uploadImageToPinata a chosen = (reqs, Inr ref)"
    and r: "read_existing storage = Inr rs"
    and w: "storage' = Some (JSON_stringify (new_image a ref (typed_description a) # rs))"
    by auto
  from f u have "uploaded_ref a = ref" by (simp add: uploaded_ref_def)
  with w have "storage' = Some (JSON_stringify (record_of a # rs))"
    by (simp add: record_of_def)
  with r step show ?thesis by simp
qed

lemma session_stored:
  "all_stored as (st, storage) \<Longrightarrow> read_existing storage = Inr xs \<Longrightarrow>
     read_existing (snd (session as (st, storage))) = Inr (rev (map record_of as) @ xs)
     \<and> (as \<noteq> [] \<longrightarrow>
          snd (session as (st, storage)) = Some (JSON_stringify (rev (map record_of as) @ xs)))"
proof (induction as arbitrary: st storage xs)
  case Nil
  then show ?case by simp
next
  case (Cons a as)
  obtain st1 storage1 where step: "store_step a (st, storage) = (st1, storage1)"
    by (cases "store_step a (st, storage)")
  from Cons.prems(1) step have ok: "stored_ok (fst (store_step a (st, storage)))"
    and rest: "all_stored as (st1, storage1)"
    by simp_all
  from store_step_stored [OF ok] Cons.prems(2) step
  have w: "storage1 = Some (JSON_stringify (record_of a # xs))" by auto
  then have r: "read_existing storage1 = Inr (record_of a # xs)"
    by (simp add: read_existing_written)
  from Cons.IH [OF rest r] step w show ?case
    by (cases as) (simp_all add: read_existing_written)
qed

lemma session_from_start:
  assumes "all_stored as session_start"
  shows "read_existing (snd (session as session_start)) = Inr (rev (map record_of as))"
    and "snd (session as session_start) =
           (if as = [] then None else Some (JSON_stringify (rev (map record_of as))))"
proof -
  have r: "read_existing None = Inr []" by (simp add: read_existing_def)
  from assms have a: "all_stored as (home_init, None)" by (simp add: session_start_def)
  from session_stored [OF a r]
  show "read_existing (snd (session as session_start)) = Inr (rev (map record_of as))"
    by (simp add: session_start_def)
  from session_stored [OF a r]
  show "snd (session as session_start) =
           (if as = [] then None else Some (JSON_stringify (rev (map record_of as))))"
    by (cases as) (simp_all add: session_start_def)
qed

lemma loadImages_read:
  assumes "read_existing storage = Inr xs"
  shows "images (loadImages storage feed_init) = array_sort by_timestamp_desc xs"
  using assms
  by (auto simp: read_existing_def loadImages_def feed_init_def
      split: option.splits if_splits sum.splits)

text \<open>
  Claim C1. Every append reads the list under the storage key, puts its new record at
  the head and writes the whole list back. After a session of \<open>N\<close> appends from an empty
  store the key holds the \<open>N\<close> records, the latest first, and the gallery load returns a
  list of length \<open>N\<close> in which the \<open>timestamp\<close> of each record is greater than or equal to
  that of the next, and whose records are those of the session.
\<close>

theorem append_then_read:
  assumes "all_stored as session_start"
  shows "(\<forall>a st storage. stored_ok (fst (store_step a (st, storage))) \<longrightarrow>
            (\<exists>rs. read_existing storage = Inr rs
               \<and> snd (store_step a (st, storage)) = Some (JSON_stringify (record_of a # rs))))
       \<and> snd (session as session_start) =
           (if as = [] then None else Some (JSON_stringify (rev (map record_of as))))
       \<and> length (images (loadImages (snd (session as session_start)) feed_init)) = length as
       \<and> newest_first (images (loadImages (snd (session as session_start)) feed_init))
       \<and> set (images (loadImages (snd (session as session_start)) feed_init))
           = set (map record_of as)"
proof -
  have step: "\<forall>a st storage. stored_ok (fst (store_step a (st, storage))) \<longrightarrow>
            (\<exists>rs. read_existing storage = Inr rs
               \<and> snd (store_step a (st, storage)) = Some (JSON_stringify (record_of a # rs)))"
    using store_step_stored by blast
  have loaded: "images (loadImages (snd (session as session_start)) feed_init)
      = array_sort by_timestamp_desc (rev (map record_of as))"
    using session_from_start(1) [OF assms] by (rule loadImages_read)
  have len: "length (images (loadImages (snd (session as session_start)) feed_init)) = length as"
    by (simp add: loaded length_array_sort)
  have sorted: "newest_first (images (loadImages (snd (session as session_start)) feed_init))"
    by (simp add: loaded newest_first_array_sort)
  have same: "set (images (loadImages (snd (session as session_start)) feed_init))
      = set (map record_of as)"
    by (simp add: loaded set_array_sort)
  from step session_from_start(2) [OF assms] len sorted same show ?thesis by blast
qed

lemma record_of_example:
  "record_of (example_action t1 t2 d) = example_image (number_to_string t1) d t2"
  by (simp add: record_of_def uploaded_ref_def new_image_def example_action_def
      example_image_def example_response_def uploadImageToPinata_def upload_try_def)

lemma example_step:
  assumes "\<not> blank d" and "read_existing storage = Inr rs"
  shows "stored_ok (fst (store_step (example_action t1 t2 d) (st, storage)))"
    and "snd (store_step (example_action t1 t2 d) (st, storage)) =
           Some (ImagesJSON (example_image (number_to_string t1) d t2 # rs))"
  using assms
  by (simp_all add: store_step_def storeImage_def trim_blank example_action_def
      example_response_def uploadImageToPinata_def upload_try_def stored_ok_def
      new_image_def example_image_def JSON_stringify_def)

lemma not_blank_examples: "\<not> blank (str ''first'')" "\<not> blank (str ''second'')" "\<not> blank (str ''sunset'')"
  by (simp_all add: blank_iff is_space_def str_def)

lemma example_session:
  assumes "\<not> blank d1" and "\<not> blank d2"
  shows "all_stored [example_action t1 t1' d1, example_action t2 t2' d2] session_start"
    and "snd (session [example_action t1 t1' d1, example_action t2 t2' d2] session_start) =
           Some (ImagesJSON [example_image (number_to_string t2) d2 t2',
                             example_image (number_to_string t1) d1 t1'])"
proof -
  let ?a1 = "example_action t1 t1' d1" and ?a2 = "example_action t2 t2' d2"
  have r0: "read_existing None = Inr []" by (simp add: read_existing_def)
  obtain st1 where s1: "store_step ?a1 (home_init, None) =
      (st1, Some (ImagesJSON [example_image (number_to_string t1) d1 t1']))"
    using example_step(2) [OF assms(1) r0, of t1 t1' home_init]
    by (cases "store_step ?a1 (home_init, None)") simp
  have ok1: "stored_ok st1"
    using example_step(1) [OF assms(1) r0, of t1 t1' home_init] s1 by simp
  have r1: "read_existing (Some (ImagesJSON [example_image (number_to_string t1) d1 t1']))
      = Inr [example_image (number_to_string t1) d1 t1']"
    using read_existing_written by (simp add: JSON_stringify_def)
  from ok1 s1 example_step(1) [OF assms(2) r1, of t2 t2' st1]
  show "all_stored [?a1, ?a2] session_start"
    by (simp add: session_start_def)
  from s1 example_step(2) [OF assms(2) r1, of t2 t2' st1]
  show "snd (session [?a1, ?a2] session_start) =
           Some (ImagesJSON [example_image (number_to_string t2) d2 t2',
                             example_image (number_to_string t1) d1 t1'])"
    by (simp add: session_start_def)
qed

lemma example_numbers:
  "number_to_string 1700000000000 = str ''1700000000000''"
  "number_to_string 1700000000001 = str ''1700000000001''"
  "number_to_string 1700000000002 = str ''1700000000002''"
  "number_to_string 1700000000005 = str ''1700000000005''"
  by (simp_all add: number_to_string_def decimal_text_def dec_digits.simps digit_char_def)

theorem append_then_read_witness:
  "all_stored [example_action 1700000000005 1700000000005 (str ''first''),
               example_action 1700000000002 1700000000002 (str ''second'')] session_start
   \<and> snd (session [example_action 1700000000005 1700000000005 (str ''first''),
                    example_action 1700000000002 1700000000002 (str ''second'')] session_start)
      = Some (JSON_stringify
          [record_of (example_action 1700000000002 1700000000002 (str ''second'')),
           record_of (example_action 1700000000005 1700000000005 (str ''first''))])
   \<and> length (images (loadImages
        (snd (session [example_action 1700000000005 1700000000005 (str ''first''),
                       example_action 1700000000002 1700000000002 (str ''second'')] session_start))
        feed_init)) = 2
   \<and> newest_first (images (loadImages
        (snd (session [example_action 1700000000005 1700000000005 (str ''first''),
                       example_action 1700000000002 1700000000002 (str ''second'')] session_start))
        feed_init))
   \<and> images (loadImages
        (snd (session [example_action 1700000000005 1700000000005 (str ''first''),
                       example_action 1700000000002 1700000000002 (str ''second'')] session_start))
        feed_init)
      = [example_image (str ''1700000000005'') (str ''first'') 1700000000005,
         example_image (str ''1700000000002'') (str ''second'') 1700000000002]"
proof -
  let ?as = "[example_action 1700000000005 1700000000005 (str ''first''),
              example_action 1700000000002 1700000000002 (str ''second'')]"
  have h: "all_stored ?as session_start"
    by (rule example_session(1)) (rule not_blank_examples)+
  have v: "snd (session ?as session_start) =
      Some (ImagesJSON [example_image (str ''1700000000002'') (str ''second'') 1700000000002,
                        example_image (str ''1700000000005'') (str ''first'') 1700000000005])"
    using example_session(2) [OF not_blank_examples(1) not_blank_examples(2)]
    by (simp add: example_numbers)
  have l: "images (loadImages (snd (session ?as session_start)) feed_init)
      = [example_image (str ''1700000000005'') (str ''first'') 1700000000005,
         example_image (str ''1700000000002'') (str ''second'') 1700000000002]"
    unfolding v
    by (simp add: loadImages_def truthy_text_def JSON_parse_def feed_init_def
        by_timestamp_desc_def example_image_def)
  from append_then_read [OF h]
  have c1: "snd (session ?as session_start) =
      (if ?as = [] then None else Some (JSON_stringify (rev (map record_of ?as))))"
    and c2: "length (images (loadImages (snd (session ?as session_start)) feed_init))
      = length ?as"
    and c3: "newest_first (images (loadImages (snd (session ?as session_start)) feed_init))"
    by blast+
  have e1: "(if ?as = [] then None else Some (JSON_stringify (rev (map record_of ?as)))) =
      Some (JSON_stringify
          [record_of (example_action 1700000000002 1700000000002 (str ''second'')),
           record_of (example_action 1700000000005 1700000000005 (str ''first''))])"
    by simp
  have e2: "length ?as = 2" by simp
  from h c1 [unfolded e1] c2 [unfolded e2] c3 l show ?thesis by blast
qed


subsection \<open>Identifiers of the stored records\<close>

lemma number_to_string_eq_iff: "number_to_string i = number_to_string j \<longleftrightarrow> i = j"
  using number_to_string_inj by blast

text \<open>
  Claim C6, as amended. The record written by a successful store operation has as \<open>id\<close>
  the decimal rendering of the first clock reading and as \<open>timestamp\<close> the second
  reading; its \<open>id\<close> is the rendering of its own \<open>timestamp\<close> exactly when the two
  readings are equal.
\<close>

theorem stored_id_and_timestamp:
  assumes "storeImage env st storage = (reqs, st', storage')" and "stored_ok st'"
  shows "\<exists>r rs. storage' = Some (JSON_stringify (r # rs))
           \<and> read_existing storage = Inr rs
           \<and> id r = number_to_string (Date_now_id env)
           \<and> timestamp r = Date_now_timestamp env
           \<and> (id r = number_to_string (timestamp r)
                \<longleftrightarrow> Date_now_id env = Date_now_timestamp env)"
proof -
  from storeImage_stored [OF assms] obtain ref rs where
    r: "read_existing storage = Inr rs"
    and w: "storage' = Some (JSON_stringify (new_image env ref (description_st st) # rs))"
    by auto
  let ?r = "new_image env ref (description_st st)"
  have "id ?r = number_to_string (Date_now_id env)"
    and "timestamp ?r = Date_now_timestamp env"
    by (simp_all add: new_image_def)
  moreover from this have "id ?r = number_to_string (timestamp ?r)
      \<longleftrightarrow> Date_now_id env = Date_now_timestamp env"
    by (simp only: number_to_string_eq_iff)
  ultimately show ?thesis using r w by blast
qed

lemma example_storeImage:
  "\<not> blank d \<Longrightarrow>
   storeImage (example_action t1 t2 d)
     (home_init\<lparr>imageFile := Some example_file, description_st := d\<rparr>) None =
   ([Fetch (str ''https://api.pinata.cloud/pinning/pinFileToIPFS'') (str ''POST'') (str ''Bearer jwt'')
       example_file],
    home_init\<lparr>imageFile := None, description_st := [], loading := False,
               uploadingImage := False,
               status := check_mark @ str '' Image stored permanently on IPFS!''\<rparr>,
    Some (JSON_stringify [example_image (number_to_string t1) d t2]))"
  by (simp add: storeImage_def trim_blank example_action_def read_existing_def
      example_response_def uploadImageToPinata_def upload_try_def home_init_def
      new_image_def example_image_def)

theorem stored_id_and_timestamp_witness:
  "storeImage (example_action 1700000000000 1700000000000 (str ''sunset''))
     (home_init\<lparr>imageFile := Some example_file, description_st := str ''sunset''\<rparr>) None =
   ([Fetch (str ''https://api.pinata.cloud/pinning/pinFileToIPFS'') (str ''POST'') (str ''Bearer jwt'')
       example_file],
    home_init\<lparr>imageFile := None, description_st := [], loading := False,
               uploadingImage := False,
               status := check_mark @ str '' Image stored permanently on IPFS!''\<rparr>,
    Some (JSON_stringify [example_image (number_to_string 1700000000000) (str ''sunset'')
                            1700000000000]))
   \<and> stored_ok (home_init\<lparr>imageFile := None, description_st := [], loading := False,
                        uploadingImage := False,
                        status := check_mark @ str '' Image stored permanently on IPFS!''\<rparr>)
   \<and> (\<exists>r rs. Some (JSON_stringify [example_image (number_to_string 1700000000000) (str ''sunset'')
                                      1700000000000])
              = Some (JSON_stringify (r # rs))
         \<and> id r = number_to_string 1700000000000
         \<and> timestamp r = 1700000000000
         \<and> id r = number_to_string (timestamp r))"
proof -
  let ?st' = "home_init\<lparr>imageFile := None, description_st := [], loading := False,
                        uploadingImage := False,
                        status := check_mark @ str '' Image stored permanently on IPFS!''\<rparr>"
  have ok: "stored_ok ?st'" by (simp add: stored_ok_def)
  have env: "Date_now_id (example_action 1700000000000 1700000000000 (str ''sunset'')) = 1700000000000"
    "Date_now_timestamp (example_action 1700000000000 1700000000000 (str ''sunset'')) = 1700000000000"
    by (simp_all add: example_action_def)
  note run = example_storeImage [OF not_blank_examples(3), of 1700000000000 1700000000000]
  from stored_id_and_timestamp [OF run ok]
  show ?thesis using run ok unfolding env by blast
qed

theorem id_is_not_timestamp_counterexample:
  "storeImage (example_action 1700000000000 1700000000001 (str ''sunset''))
     (home_init\<lparr>imageFile := Some example_file, description_st := str ''sunset''\<rparr>) None =
   ([Fetch (str ''https://api.pinata.cloud/pinning/pinFileToIPFS'') (str ''POST'') (str ''Bearer jwt'')
       example_file],
    home_init\<lparr>imageFile := None, description_st := [], loading := False,
               uploadingImage := False,
               status := check_mark @ str '' Image stored permanently on IPFS!''\<rparr>,
    Some (JSON_stringify [example_image (str ''1700000000000'') (str ''sunset'') 1700000000001]))
   \<and> id (example_image (str ''1700000000000'') (str ''sunset'') 1700000000001)
       \<noteq> number_to_string (timestamp (example_image (str ''1700000000000'') (str ''sunset'') 1700000000001))"
proof -
  have "id (example_image (str ''1700000000000'') (str ''sunset'') 1700000000001)
       \<noteq> number_to_string (timestamp (example_image (str ''1700000000000'') (str ''sunset'') 1700000000001))"
    by (simp add: example_image_def example_numbers)
  with example_storeImage [OF not_blank_examples(3), of 1700000000000 1700000000001]
  show ?thesis by (simp add: example_numbers)
qed

text \<open>
  Claim C7, as amended. In a session of appends from an empty store whose \<open>id\<close> clock
  readings are pairwise distinct, the ids of the stored records are pairwise distinct.
\<close>

theorem ids_distinct_for_distinct_readings:
  assumes "all_stored as session_start" and "distinct (map Date_now_id as)"
  shows "\<exists>recs. read_existing (snd (session as session_start)) = Inr recs
           \<and> length recs = length as \<and> distinct (map id recs)"
proof -
  have ids: "map id (rev (map record_of as)) = rev (map number_to_string (map Date_now_id as))"
    by (simp add: rev_map record_of_def new_image_def comp_def)
  have "inj_on number_to_string (set (map Date_now_id as))"
    by (rule inj_onI) (rule number_to_string_inj)
  with assms(2) have "distinct (map number_to_string (map Date_now_id as))"
    by (simp only: distinct_map)
  then have "distinct (map id (rev (map record_of as)))"
    by (simp only: ids distinct_rev)
  with session_from_start(1) [OF assms(1)] show ?thesis by simp
qed

theorem ids_distinct_for_distinct_readings_witness:
  "all_stored [example_action 1700000000000 1700000000000 (str ''first''),
               example_action 1700000000001 1700000000002 (str ''second'')] session_start
   \<and> distinct (map Date_now_id [example_action 1700000000000 1700000000000 (str ''first''),
                                 example_action 1700000000001 1700000000002 (str ''second'')])
   \<and> (\<exists>recs. read_existing (snd (session
                [example_action 1700000000000 1700000000000 (str ''first''),
                 example_action 1700000000001 1700000000002 (str ''second'')] session_start))
               = Inr recs
         \<and> length recs = 2 \<and> distinct (map id recs))"
proof -
  let ?as = "[example_action 1700000000000 1700000000000 (str ''first''),
              example_action 1700000000001 1700000000002 (str ''second'')]"
  have h: "all_stored ?as session_start"
    by (rule example_session(1)) (rule not_blank_examples)+
  have d: "distinct (map Date_now_id ?as)" by (simp add: example_action_def)
  have e: "length ?as = 2" by simp
  from ids_distinct_for_distinct_readings [OF h d] h d show ?thesis
    unfolding e by blast
qed

theorem duplicate_ids_counterexample:
  "all_stored [example_action 1700000000000 1700000000000 (str ''first''),
               example_action 1700000000000 1700000000001 (str ''second'')] session_start
   \<and> read_existing (snd (session
        [example_action 1700000000000 1700000000000 (str ''first''),
         example_action 1700000000000 1700000000001 (str ''second'')] session_start))
      = Inr [example_image (str ''1700000000000'') (str ''second'') 1700000000001,
             example_image (str ''1700000000000'') (str ''first'') 1700000000000]
   \<and> \<not> distinct (map id [example_image (str ''1700000000000'') (str ''second'') 1700000000001,
                          example_image (str ''1700000000000'') (str ''first'') 1700000000000])"
proof -
  let ?as = "[example_action 1700000000000 1700000000000 (str ''first''),
              example_action 1700000000000 1700000000001 (str ''second'')]"
  have h: "all_stored ?as session_start"
    by (rule example_session(1)) (rule not_blank_examples)+
  have v: "snd (session ?as session_start) =
      Some (JSON_stringify [example_image (str ''1700000000000'') (str ''second'') 1700000000001,
                            example_image (str ''1700000000000'') (str ''first'') 1700000000000])"
    using example_session(2) [OF not_blank_examples(1) not_blank_examples(2)]
    by (simp add: example_numbers JSON_stringify_def)
  have r: "read_existing (snd (session ?as session_start))
      = Inr [example_image (str ''1700000000000'') (str ''second'') 1700000000001,
             example_image (str ''1700000000000'') (str ''first'') 1700000000000]"
    unfolding v by (rule read_existing_written)
  have n: "\<not> distinct (map id [example_image (str ''1700000000000'') (str ''second'') 1700000000001,
                          example_image (str ''1700000000000'') (str ''first'') 1700000000000])"
    by (simp add: example_image_def)
  from h r n show ?thesis by blast
qed

subsection \<open>Malformed text under the storage key\<close>

lemma read_existing_EmptyText: "read_existing (Some EmptyText) = read_existing None"
  by (simp add: read_existing_def truthy_text_def)

lemma storeImage_EmptyText:
  "fst (storeImage env st (Some EmptyText)) = fst (storeImage env st None)"
  "fst (snd (storeImage env st (Some EmptyText))) = fst (snd (storeImage env st None))"
  by (auto simp: storeImage_def read_existing_EmptyText Let_def
      split: option.splits prod.splits sum.splits)

text \<open>
  Claim C8, as amended. When the text under the storage key is malformed JSON, the
  gallery load behaves as it does for an empty store: the loaded list stays empty and
  the parse error goes no further than the load's own handler. The read inside
  \<open>storeImage\<close> treats the store as empty only when the text is the empty string, which
  it never parses: the call then issues the same requests and ends in the same state as
  on an empty store, and a successful one writes the list of the new record alone. On
  any other malformed text the parse error, after the upload, is caught by the handler
  of \<open>storeImage\<close>, which reports \<open>Storage failed:\<close> with the parser's message, writes
  nothing and leaves the text under the key as it was.
\<close>

theorem malformed_storage_read:
  "loadImages (Some (Malformed msg)) st = loadImages None st
   \<and> loadImages (Some EmptyText) st = loadImages None st
   \<and> images (loadImages (Some (Malformed msg)) feed_init) = []
   \<and> images (loadImages (Some EmptyText) feed_init) = []
   \<and> read_existing (Some EmptyText) = read_existing None
   \<and> fst (storeImage env st' (Some EmptyText)) = fst (storeImage env st' None)
   \<and> fst (snd (storeImage env st' (Some EmptyText))) = fst (snd (storeImage env st' None))
   \<and> (imageFile st' = Some chosen \<and> \<not> blank (description_st st')
        \<and> uploadImageToPinata env chosen = (reqs, Inr ref) \<longrightarrow>
       storeImage env st' (Some (Malformed msg)) =
         (reqs, store_failed st' (Error (Some msg)), Some (Malformed msg))
       \<and> status (store_failed st' (Error (Some msg))) =
           str ''Storage failed: '' @ (if msg = [] then str ''Unknown error'' else msg)
       \<and> (setItem_throws env (JSON_stringify [new_image env ref (description_st st')]) = None
            \<longrightarrow> snd (snd (storeImage env st' (Some EmptyText))) =
                Some (JSON_stringify [new_image env ref (description_st st')])))"
proof -
  have load: "loadImages (Some (Malformed msg)) st = loadImages None st"
    "loadImages (Some EmptyText) st = loadImages None st"
    by (simp_all add: loadImages_def truthy_text_def JSON_parse_def)
  have empty: "images (loadImages (Some (Malformed msg)) feed_init) = []"
    "images (loadImages (Some EmptyText) feed_init) = []"
    by (simp_all add: loadImages_def truthy_text_def JSON_parse_def feed_init_def)
  have store: "storeImage env st' (Some (Malformed msg)) =
         (reqs, store_failed st' (Error (Some msg)), Some (Malformed msg))"
    if "imageFile st' = Some chosen" "\<not> blank (description_st st')"
      "uploadImageToPinata env chosen = (reqs, Inr ref)"
    using that
    by (simp add: storeImage_def trim_blank read_existing_def truthy_text_def JSON_parse_def)
  have msg: "status (store_failed st' (Error (Some msg))) =
           str ''Storage failed: '' @ (if msg = [] then str ''Unknown error'' else msg)"
    by (simp add: store_failed_def or_else_def)
  have written: "snd (snd (storeImage env st' (Some EmptyText))) =
                Some (JSON_stringify [new_image env ref (description_st st')])"
    if "imageFile st' = Some chosen" "\<not> blank (description_st st')"
      "uploadImageToPinata env chosen = (reqs, Inr ref)"
      "setItem_throws env (JSON_stringify [new_image env ref (description_st st')]) = None"
    using that
    by (simp add: storeImage_def trim_blank read_existing_def truthy_text_def)
  from load empty read_existing_EmptyText storeImage_EmptyText [of env st'] store msg written
  show ?thesis by blast
qed

lemma example_upload:
  "uploadImageToPinata (example_action t1 t2 d) example_file =
     ([Fetch (str ''https://api.pinata.cloud/pinning/pinFileToIPFS'') (str ''POST'')
         (str ''Bearer jwt'') example_file],
      Inr (str ''ipfs://QmSunset''))"
  by (simp add: example_action_def example_response_def uploadImageToPinata_def upload_try_def)

theorem malformed_storage_read_witness:
  "imageFile (home_init\<lparr>imageFile := Some example_file, description_st := str ''sunset''\<rparr>)
     = Some example_file
   \<and> \<not> blank (description_st
         (home_init\<lparr>imageFile := Some example_file, description_st := str ''sunset''\<rparr>))
   \<and> uploadImageToPinata (example_action 1 1 (str ''sunset'')) example_file =
       ([Fetch (str ''https://api.pinata.cloud/pinning/pinFileToIPFS'') (str ''POST'')
           (str ''Bearer jwt'') example_file],
        Inr (str ''ipfs://QmSunset''))
   \<and> setItem_throws (example_action 1 1 (str ''sunset''))
        (JSON_stringify [new_image (example_action 1 1 (str ''sunset'')) (str ''ipfs://QmSunset'')
           (str ''sunset'')]) = None
   \<and> storeImage (example_action 1 1 (str ''sunset''))
        (home_init\<lparr>imageFile := Some example_file, description_st := str ''sunset''\<rparr>)
        (Some (Malformed (str ''Unexpected token'')))
      = ([Fetch (str ''https://api.pinata.cloud/pinning/pinFileToIPFS'') (str ''POST'')
            (str ''Bearer jwt'') example_file],
         store_failed
           (home_init\<lparr>imageFile := Some example_file, description_st := str ''sunset''\<rparr>)
           (Error (Some (str ''Unexpected token''))),
         Some (Malformed (str ''Unexpected token'')))
   \<and> snd (snd (storeImage (example_action 1 1 (str ''sunset''))
        (home_init\<lparr>imageFile := Some example_file, description_st := str ''sunset''\<rparr>)
        (Some EmptyText)))
      = Some (JSON_stringify [new_image (example_action 1 1 (str ''sunset''))
           (str ''ipfs://QmSunset'') (str ''sunset'')])"
proof -
  let ?env = "example_action 1 1 (str ''sunset'')"
  let ?st = "home_init\<lparr>imageFile := Some example_file, description_st := str ''sunset''\<rparr>"
  let ?reqs = "[Fetch (str ''https://api.pinata.cloud/pinning/pinFileToIPFS'') (str ''POST'')
                  (str ''Bearer jwt'') example_file]"
  let ?new = "new_image ?env (str ''ipfs://QmSunset'') (str ''sunset'')"
  have f: "imageFile ?st = Some example_file" by simp
  have b: "\<not> blank (description_st ?st)" by (simp add: not_blank_examples)
  have u: "uploadImageToPinata ?env example_file = (?reqs, Inr (str ''ipfs://QmSunset''))"
    by (rule example_upload)
  have w: "setItem_throws ?env (JSON_stringify [?new]) = None"
    by (simp add: example_action_def)
  have d: "description_st ?st = str ''sunset''" by simp
  note inst = malformed_storage_read
    [where msg = "str ''Unexpected token''" and st = feed_init and st' = ?st
       and chosen = example_file and env = ?env and reqs = ?reqs
       and ref = "str ''ipfs://QmSunset''"]
  have w': "setItem_throws ?env
      (JSON_stringify [new_image ?env (str ''ipfs://QmSunset'') (description_st ?st)]) = None"
    by (simp add: example_action_def)
  note last = inst [THEN conjunct2, THEN conjunct2, THEN conjunct2, THEN conjunct2,
      THEN conjunct2, THEN conjunct2, THEN conjunct2]
  note concl = last [THEN mp, OF conjI [OF f conjI [OF b u]]]
  have 1: "storeImage ?env ?st (Some (Malformed (str ''Unexpected token'')))
      = (?reqs, store_failed ?st (Error (Some (str ''Unexpected token''))),
         Some (Malformed (str ''Unexpected token'')))"
    by (rule concl [THEN conjunct1])
  have "snd (snd (storeImage ?env ?st (Some EmptyText)))
      = Some (JSON_stringify [new_image ?env (str ''ipfs://QmSunset'') (description_st ?st)])"
    by (rule concl [THEN conjunct2, THEN conjunct2, THEN mp, OF w'])
  then have 2: "snd (snd (storeImage ?env ?st (Some EmptyText))) = Some (JSON_stringify [?new])"
    by (simp only: d)
  show ?thesis
    by (intro conjI) (rule f b u w 1 2)+
qed

theorem append_on_malformed_counterexample:
  "storeImage (example_action 1 1 (str ''sunset''))
     (home_init\<lparr>imageFile := Some example_file, description_st := str ''sunset''\<rparr>)
     (Some (Malformed (str ''Unexpected token'')))
   = ([Fetch (str ''https://api.pinata.cloud/pinning/pinFileToIPFS'') (str ''POST'')
         (str ''Bearer jwt'') example_file],
      home_init\<lparr>imageFile := Some example_file, description_st := str ''sunset'',
                 loading := False, uploadingImage := False,
                 status := str ''Storage failed: Unexpected token''\<rparr>,
      Some (Malformed (str ''Unexpected token'')))
   \<and> storeImage (example_action 1 1 (str ''sunset''))
       (home_init\<lparr>imageFile := Some example_file, description_st := str ''sunset''\<rparr>)
       None
     = ([Fetch (str ''https://api.pinata.cloud/pinning/pinFileToIPFS'') (str ''POST'')
           (str ''Bearer jwt'') example_file],
        home_init\<lparr>imageFile := None, description_st := [], loading := False,
                   uploadingImage := False,
                   status := check_mark @ str '' Image stored permanently on IPFS!''\<rparr>,
        Some (JSON_stringify [example_image (str ''1'') (str ''sunset'') 1]))"
proof -
  have n: "number_to_string 1 = str ''1''"
    by (simp add: number_to_string_def decimal_text_def dec_digits.simps digit_char_def)
  have 1: "storeImage (example_action 1 1 (str ''sunset''))
     (home_init\<lparr>imageFile := Some example_file, description_st := str ''sunset''\<rparr>)
     (Some (Malformed (str ''Unexpected token'')))
   = ([Fetch (str ''https://api.pinata.cloud/pinning/pinFileToIPFS'') (str ''POST'')
         (str ''Bearer jwt'') example_file],
      home_init\<lparr>imageFile := Some example_file, description_st := str ''sunset'',
                 loading := False, uploadingImage := False,
                 status := str ''Storage failed: Unexpected token''\<rparr>,
      Some (Malformed (str ''Unexpected token'')))"
    by (simp add: storeImage_def trim_blank not_blank_examples example_upload
        read_existing_def truthy_text_def JSON_parse_def store_failed_def or_else_def
        home_init_def)
  from example_storeImage [OF not_blank_examples(3), of 1 1] 1 show ?thesis
    by (simp only: n)
qed

end
